theory Spec2Isabelle
  imports Complex_Main "HOL-Library.AList" "HOL-Library.Word"
begin

section \<open>Python values and exceptions\<close>

text \<open>
  The gate network, the transaction codec and the driver exchange plain Python values:
  \<open>None\<close>, booleans, integers, floats, strings, lists, tuples and dictionaries with
  string keys (what JSON and msgpack carry).  A dictionary is an association list in
  insertion order with \<open>AList.update\<close> as item assignment: an existing key keeps its
  place, a new key goes to the end, as in a Python \<open>dict\<close>.  Finite floats are
  modelled by their rational value.
\<close>

datatype pyval =
    VNone
  | VBool bool
  | VInt int
  | VFloat rat
  | VStr string
  | VList "pyval list"
  | VTuple "pyval list"
  | VDict "(string \<times> pyval) list"

type_synonym pydict = "(string \<times> pyval) list"

type_synonym bytes = "8 word list"

text \<open>
  A raised exception is a value: its class and its message.  Only the classes that the
  sources raise or catch are told apart.
\<close>

datatype exc =
    ValueError | RuntimeError | RuntimeWarning | KeyError | TypeError
  | AttributeError | IndexError | RecursionError | OSError

datatype error = Raised exc string

fun exc_class :: "error \<Rightarrow> exc" where
  "exc_class (Raised c m) = c"

fun exc_message :: "error \<Rightarrow> string" where
  "exc_message (Raised c m) = m"

text \<open>\<open>isinstance(e, cls)\<close> on exceptions: \<open>RecursionError\<close> derives from
  \<open>RuntimeError\<close>; the other classes listed are unrelated to each other.\<close>

fun exc_isinstance :: "exc \<Rightarrow> exc \<Rightarrow> bool" where
  "exc_isinstance RecursionError RuntimeError = True"
| "exc_isinstance c c' = (c = c')"

text \<open>The name Python prints for the type of a value, used in messages only.\<close>

fun type_name :: "pyval \<Rightarrow> string" where
  "type_name VNone = ''NoneType''"
| "type_name (VBool b) = ''bool''"
| "type_name (VInt i) = ''int''"
| "type_name (VFloat f) = ''float''"
| "type_name (VStr s) = ''str''"
| "type_name (VList xs) = ''list''"
| "type_name (VTuple xs) = ''tuple''"
| "type_name (VDict d) = ''dict''"

subsection \<open>Operators on values\<close>

text \<open>\<open>a == b\<close>: numbers compare by value across \<open>bool\<close>, \<open>int\<close> and \<open>float\<close>,
  sequences elementwise, dictionaries by key set and values.\<close>

fun num_value :: "pyval \<Rightarrow> rat option" where
  "num_value (VBool b) = Some (if b then 1 else 0)"
| "num_value (VInt i) = Some (of_int i)"
| "num_value (VFloat f) = Some f"
| "num_value v = None"

primrec py_eq :: "pyval \<Rightarrow> pyval \<Rightarrow> bool" where
  "py_eq VNone = (\<lambda>b. b = VNone)"
| "py_eq (VBool x) = (\<lambda>b. num_value b = num_value (VBool x))"
| "py_eq (VInt x) = (\<lambda>b. num_value b = num_value (VInt x))"
| "py_eq (VFloat x) = (\<lambda>b. num_value b = num_value (VFloat x))"
| "py_eq (VStr x) = (\<lambda>b. b = VStr x)"
| "py_eq (VList xs) = (\<lambda>b. case b of
       VList ys \<Rightarrow> length xs = length ys \<and> list_all (\<lambda>(f, y). f y) (zip (map py_eq xs) ys)
     | _ \<Rightarrow> False)"
| "py_eq (VTuple xs) = (\<lambda>b. case b of
       VTuple ys \<Rightarrow> length xs = length ys \<and> list_all (\<lambda>(f, y). f y) (zip (map py_eq xs) ys)
     | _ \<Rightarrow> False)"
| "py_eq (VDict d) = (\<lambda>b. case b of
       VDict d' \<Rightarrow> length d = length d' \<and>
         list_all (\<lambda>(k, f). case map_of d' k of None \<Rightarrow> False | Some y \<Rightarrow> f y)
           (map (map_prod id py_eq) d)
     | _ \<Rightarrow> False)"

text \<open>\<open>key in container\<close> for a string key: membership among a dictionary's keys,
  substring test on a string, element test on a list or tuple; any other value is not
  iterable and the test raises \<open>TypeError\<close>.\<close>

fun starts_with :: "string \<Rightarrow> string \<Rightarrow> bool" where
  "starts_with s [] = True"
| "starts_with [] (c # cs) = False"
| "starts_with (x # xs) (c # cs) = (x = c \<and> starts_with xs cs)"

fun str_contains :: "string \<Rightarrow> string \<Rightarrow> bool" where
  "str_contains [] sub = (sub = [])"
| "str_contains (x # xs) sub = (starts_with (x # xs) sub \<or> str_contains xs sub)"

fun py_contains :: "string \<Rightarrow> pyval \<Rightarrow> error + bool" where
  "py_contains key (VDict d) = Inr (key \<in> set (map fst d))"
| "py_contains key (VStr s) = Inr (str_contains s key)"
| "py_contains key (VList xs) = Inr (list_ex (py_eq (VStr key)) xs)"
| "py_contains key (VTuple xs) = Inr (list_ex (py_eq (VStr key)) xs)"
| "py_contains key v =
     Inl (Raised TypeError (''argument of type '' @ type_name v @ '' is not iterable''))"

text \<open>\<open>container[key]\<close> for a string key: only a dictionary can be indexed by a
  string.\<close>

fun py_getitem :: "pyval \<Rightarrow> string \<Rightarrow> error + pyval" where
  "py_getitem (VDict d) key =
     (case map_of d key of None \<Rightarrow> Inl (Raised KeyError key) | Some v \<Rightarrow> Inr v)"
| "py_getitem (VStr s) key = Inl (Raised TypeError ''string indices must be integers'')"
| "py_getitem (VList xs) key = Inl (Raised TypeError ''list indices must be integers or slices'')"
| "py_getitem (VTuple xs) key = Inl (Raised TypeError ''tuple indices must be integers or slices'')"
| "py_getitem v key = Inl (Raised TypeError (type_name v @ '' object is not subscriptable''))"

text \<open>Iterating over a value: the elements of a list or tuple, the characters of a
  string, the keys of a dictionary; any other value is not iterable.\<close>

definition py_iter :: "pyval \<Rightarrow> error + pyval list" where
  "py_iter v =
     (case v of
        VList xs \<Rightarrow> Inr xs
      | VTuple xs \<Rightarrow> Inr xs
      | VStr str \<Rightarrow> Inr (map (\<lambda>c. VStr [c]) str)
      | VDict d \<Rightarrow> Inr (map (\<lambda>(key, val). VStr key) d)
      | _ \<Rightarrow> Inl (Raised TypeError (type_name v @ '' object is not iterable'')))"

section \<open>core/utils.py\<close>

text \<open>\<open>route.split(delimiter)\<close> for a one-character delimiter: every occurrence
  cuts, so the result is never empty.\<close>

fun split :: "char \<Rightarrow> string \<Rightarrow> string list" where
  "split delimiter [] = [[]]"
| "split delimiter (c # cs) =
     (if c = delimiter then [] # split delimiter cs
      else (case split delimiter cs of [] \<Rightarrow> [[c]] | w # ws \<Rightarrow> (c # w) # ws))"

text \<open>
  \<^verbatim>\<open>
  def _get_nested_util(route: list, mapping):
      key = route.pop(0)
      if key not in mapping:
          return None
      mapping = mapping[key]
      return mapping if not len(route) else _get_nested_util(route, mapping)
  \<close>
  \<open>route.pop(0)\<close> on an empty list raises \<open>IndexError\<close>.
\<close>

fun get_nested_util :: "string list \<Rightarrow> pyval \<Rightarrow> error + pyval" where
  "get_nested_util [] mapping = Inl (Raised IndexError ''pop from empty list'')"
| "get_nested_util (key # route) mapping =
     (case py_contains key mapping of
        Inl e \<Rightarrow> Inl e
      | Inr False \<Rightarrow> Inr VNone
      | Inr True \<Rightarrow>
          (case py_getitem mapping key of
             Inl e \<Rightarrow> Inl e
           | Inr m \<Rightarrow> if route = [] then Inr m else get_nested_util route m))"

definition get_nested :: "string \<Rightarrow> pyval \<Rightarrow> error + pyval" where
  "get_nested route mapping = get_nested_util (split CHR ''.'' route) mapping"

text \<open>
  The lookup as the specification words it: resolve the path segment by segment and
  yield null as soon as a segment is absent, a value that is no mapping having no
  segments at all.
\<close>

fun lookup_spec :: "string list \<Rightarrow> pyval \<Rightarrow> pyval" where
  "lookup_spec [] m = m"
| "lookup_spec (key # route) (VDict d) =
     (case map_of d key of None \<Rightarrow> VNone | Some v \<Rightarrow> lookup_spec route v)"
| "lookup_spec (key # route) v = VNone"

text \<open>Every value that the path reaches before its last segment is a mapping.\<close>

fun mappings_along :: "string list \<Rightarrow> pyval \<Rightarrow> bool" where
  "mappings_along [] m = True"
| "mappings_along (key # route) (VDict d) =
     (case map_of d key of None \<Rightarrow> True | Some v \<Rightarrow> route = [] \<or> mappings_along route v)"
| "mappings_along (key # route) v = False"

section \<open>core/transactions.py\<close>

text \<open>
  The msgpack library and the sockets are outside the repository; they are parameters of
  the model.  \<open>msgpack_loads\<close> may raise (the library's unpack errors derive from
  \<open>ValueError\<close>), \<open>client_send\<close> is one connect-send-receive-close cycle of a client,
  and the JSON functions serve the network's own server.
\<close>

record env =
  msgpack_dumps :: "pyval \<Rightarrow> error + bytes"
  msgpack_loads :: "bytes \<Rightarrow> error + pyval"
  client_send :: "string \<times> int \<Rightarrow> bytes \<Rightarrow> error + bytes"
  json_loads :: "bytes \<Rightarrow> error + pyval"
  json_dumps :: "pyval \<Rightarrow> error + bytes"

text \<open>The classes that the structures name as field types.\<close>

datatype pytype = PyFloat | PyDict | PyStr | PyList

fun isinstance :: "pyval \<Rightarrow> pytype \<Rightarrow> bool" where
  "isinstance (VFloat f) PyFloat = True"
| "isinstance (VDict d) PyDict = True"
| "isinstance (VStr s) PyStr = True"
| "isinstance (VList xs) PyList = True"
| "isinstance v t = False"

text \<open>A \<open>_Structure\<close> maps a field to its description; the description may hold a
  \<open>"type"\<close> entry.\<close>

type_synonym py_structure = "(string \<times> pytype option) list"

text \<open>
  \<^verbatim>\<open>
  def is_valid_entry(self, key: str, value) -> bool:
      if key not in self:
          return False
      if value is None:
          return True
      if "type" in self[key]:
          if not isinstance(value, self[key]["type"]):
              return False
      return True
  \<close>
\<close>

definition is_valid_entry :: "py_structure \<Rightarrow> string \<Rightarrow> pyval \<Rightarrow> bool" where
  "is_valid_entry st key val =
     (case map_of st key of
        None \<Rightarrow> False
      | Some descr \<Rightarrow>
          if val = VNone then True
          else (case descr of Some t \<Rightarrow> isinstance val t | None \<Rightarrow> True))"

text \<open>
  \<^verbatim>\<open>
  def is_valid_transaction(self, transaction: dict) -> bool:
      if self.keys() != transaction.keys():
          return False
      for key, value in transaction.items():
          if not self.is_valid_entry(key, value):
              return False
      return True
  \<close>
\<close>

definition is_valid_transaction :: "py_structure \<Rightarrow> pydict \<Rightarrow> bool" where
  "is_valid_transaction st tr =
     (if set (map fst st) \<noteq> set (map fst tr) then False
      else list_all (\<lambda>(key, val). is_valid_entry st key val) tr)"

definition server_structure :: py_structure where
  "server_structure =
     [(''received_time'', Some PyFloat), (''sent_time'', Some PyFloat),
      (''response'', Some PyDict), (''error'', Some PyStr)]"

definition client_structure :: py_structure where
  "client_structure = [(''input'', Some PyList)]"

text \<open>\<open>_structures[structure]\<close>: a name other than the two raises \<open>KeyError\<close>.\<close>

definition structures :: "string \<Rightarrow> error + py_structure" where
  "structures name =
     (if name = ''server'' then Inr server_structure
      else if name = ''client'' then Inr client_structure
      else Inl (Raised KeyError name))"

text \<open>A \<open>Transaction\<close> is a dictionary that remembers the name of its structure.\<close>

record transaction =
  structure_key :: string
  contents :: pydict

text \<open>\<open>Transaction.__setitem__\<close>: an entry the structure does not allow raises
  \<open>ValueError\<close>.\<close>

definition transaction_setitem :: "transaction \<Rightarrow> string \<Rightarrow> pyval \<Rightarrow> error + transaction" where
  "transaction_setitem t key val =
     (case structures (structure_key t) of
        Inl e \<Rightarrow> Inl e
      | Inr st \<Rightarrow>
          if \<not> is_valid_entry st key val
          then Inl (Raised ValueError
            ''Tried to set a transaction item that does not adhere to the structure format.'')
          else Inr (t\<lparr>contents := AList.update key val (contents t)\<rparr>))"

fun transaction_set_all :: "transaction \<Rightarrow> pydict \<Rightarrow> error + transaction" where
  "transaction_set_all t [] = Inr t"
| "transaction_set_all t ((key, val) # kwargs) =
     (case transaction_setitem t key val of
        Inl e \<Rightarrow> Inl e
      | Inr t' \<Rightarrow> transaction_set_all t' kwargs)"

text \<open>
  \<^verbatim>\<open>
  def __init__(self, structure: str, **kwargs):
      super(Transaction, self).__init__(dict.fromkeys(_structures[structure]))
      self._structure_key = structure
      for key in kwargs.keys():
          self[key] = kwargs.get(key, None)
  \<close>
\<close>

definition transaction_init :: "string \<Rightarrow> pydict \<Rightarrow> error + transaction" where
  "transaction_init name kwargs =
     (case structures name of
        Inl e \<Rightarrow> Inl e
      | Inr st \<Rightarrow>
          transaction_set_all
            \<lparr>structure_key = name, contents = map (\<lambda>(key, descr). (key, VNone)) st\<rparr> kwargs)"

text \<open>
  \<^verbatim>\<open>
  def encoded(self) -> bytes:
      if not _structures[self._structure_key].is_valid_transaction(self):
          raise ValueError("Transaction to send does not match the structuring format ...")
      return msgpack.dumps(dict(**self))
  \<close>
\<close>

definition encoded :: "env \<Rightarrow> transaction \<Rightarrow> error + bytes" where
  "encoded ev t =
     (case structures (structure_key t) of
        Inl e \<Rightarrow> Inl e
      | Inr st \<Rightarrow>
          if \<not> is_valid_transaction st (contents t)
          then Inl (Raised ValueError
            (''Transaction to send does not match the structuring format '' @ structure_key t))
          else msgpack_dumps ev (VDict (contents t)))"

text \<open>
  \<^verbatim>\<open>
  def decode_transaction(structure: str, received: bytes) -> Transaction:
      decoded: dict = msgpack.loads(received)
      if not _structures[structure].is_valid_transaction(decoded):
          raise RuntimeError("Received transaction does not match the structuring format ...")
      return Transaction(structure, **decoded)
  \<close>
  A decoded value that is no dictionary has no \<open>keys\<close>: \<open>AttributeError\<close>.
\<close>

definition decode_transaction :: "env \<Rightarrow> string \<Rightarrow> bytes \<Rightarrow> error + transaction" where
  "decode_transaction ev name received =
     (case msgpack_loads ev received of
        Inl e \<Rightarrow> Inl e
      | Inr decoded \<Rightarrow>
          (case structures name of
             Inl e \<Rightarrow> Inl e
           | Inr st \<Rightarrow>
               (case decoded of
                  VDict d \<Rightarrow>
                    if \<not> is_valid_transaction st d
                    then Inl (Raised RuntimeError
                      (''Received transaction does not match the structuring format '' @ name))
                    else transaction_init name d
                | _ \<Rightarrow> Inl (Raised AttributeError
                      (type_name decoded @ '' object has no attribute keys'')))))"

section \<open>control/graph.py\<close>

text \<open>
  A \<open>DirectedGraph\<close> is a dictionary from a node key to the node, the set of its
  successor keys.  The dictionary is an association list in insertion order; a node is
  the list of its elements in the set's iteration order.
\<close>

type_synonym graph = "(string \<times> string list) list"

text \<open>\<open>out_neighbors\<close>: \<open>set(self[key])\<close>, a \<open>KeyError\<close> for a key that is no
  node.\<close>

definition out_neighbors :: "graph \<Rightarrow> string \<Rightarrow> error + string list" where
  "out_neighbors g key =
     (case map_of g key of None \<Rightarrow> Inl (Raised KeyError key) | Some node \<Rightarrow> Inr node)"

text \<open>
  \<^verbatim>\<open>
  def _get_paths_util(self, key: Hashable, paths: list, prepended: list, start: Hashable = None):
      prepended += [key]
      out_neighbors = self.out_neighbors(key)
      if not out_neighbors or key == start:
          return prepended
      start = key if start is None else start
      for child in out_neighbors:
          new_path = self._get_paths_util(child, paths, list(prepended), start)
          if new_path:
              paths.append(new_path)
  \<close>
  The function calls itself once per key of the path it follows, and the interpreter
  allows a bounded number of nested calls only: the first argument is the number of
  nested calls still allowed, and a call beyond it raises \<open>RecursionError\<close>.  The
  result is the returned path, if any, with the list \<open>paths\<close> as the call leaves it.
  \<open>paths_of_children\<close> is the loop over the successors.
\<close>

fun get_paths_util ::
  "nat \<Rightarrow> graph \<Rightarrow> string \<Rightarrow> string list list \<Rightarrow> string list \<Rightarrow> string option \<Rightarrow>
     error + (string list option \<times> string list list)"
and paths_of_children ::
  "nat \<Rightarrow> graph \<Rightarrow> string list \<Rightarrow> string list list \<Rightarrow> string list \<Rightarrow> string \<Rightarrow>
     error + string list list" where
  "get_paths_util 0 g key paths prepended start =
     Inl (Raised RecursionError ''maximum recursion depth exceeded'')"
| "get_paths_util (Suc limit) g key paths prepended start =
     (case out_neighbors g key of
        Inl e \<Rightarrow> Inl e
      | Inr out \<Rightarrow>
          if out = [] \<or> Some key = start then Inr (Some (prepended @ [key]), paths)
          else (case paths_of_children limit g out paths (prepended @ [key])
                       (case start of None \<Rightarrow> key | Some s \<Rightarrow> s) of
                  Inl e \<Rightarrow> Inl e
                | Inr paths' \<Rightarrow> Inr (None, paths')))"
| "paths_of_children limit g [] paths prepended start = Inr paths"
| "paths_of_children limit g (child # rest) paths prepended start =
     (case get_paths_util limit g child paths prepended (Some start) of
        Inl e \<Rightarrow> Inl e
      | Inr (new_path, paths') \<Rightarrow>
          paths_of_children limit g rest
            (case new_path of
               None \<Rightarrow> paths'
             | Some path \<Rightarrow> if path \<noteq> [] then paths' @ [path] else paths')
            prepended start)"

text \<open>
  \<^verbatim>\<open>
  def get_complete_paths(self, key: Hashable, sort: bool = False) -> list:
      paths = []
      self._get_paths_util(key, paths, [])
      return sorted(paths, key=lambda x: len(x)) if sort else paths
  \<close>
\<close>

definition get_complete_paths :: "nat \<Rightarrow> graph \<Rightarrow> string \<Rightarrow> bool \<Rightarrow> error + string list list" where
  "get_complete_paths limit g key sorted_by_length =
     (case get_paths_util limit g key [] [] None of
        Inl e \<Rightarrow> Inl e
      | Inr (returned, paths) \<Rightarrow> Inr (if sorted_by_length then sort_key length paths else paths))"

text \<open>
  \<^verbatim>\<open>
  def get_all_complete_paths(self) -> list:
      paths = []
      for key in self.keys():
          paths += self.get_complete_paths(key)
      return paths
  \<close>
\<close>

fun all_paths_from :: "nat \<Rightarrow> graph \<Rightarrow> string list \<Rightarrow> string list list \<Rightarrow> error + string list list" where
  "all_paths_from limit g [] paths = Inr paths"
| "all_paths_from limit g (key # keys) paths =
     (case get_complete_paths limit g key False of
        Inl e \<Rightarrow> Inl e
      | Inr found \<Rightarrow> all_paths_from limit g keys (paths @ found))"

definition get_all_complete_paths :: "nat \<Rightarrow> graph \<Rightarrow> error + string list list" where
  "get_all_complete_paths limit g = all_paths_from limit g (map fst g) []"

text \<open>
  \<^verbatim>\<open>
  def is_acyclic(self) -> bool:
      for path in self.get_all_complete_paths():
          if path[0] == path[-1]:
              return False
      return True
  \<close>
\<close>

fun no_closed_path :: "string list list \<Rightarrow> error + bool" where
  "no_closed_path [] = Inr True"
| "no_closed_path ([] # paths) = Inl (Raised IndexError ''list index out of range'')"
| "no_closed_path ((key # path) # paths) =
     (if key = last (key # path) then Inr False else no_closed_path paths)"

definition is_acyclic :: "nat \<Rightarrow> graph \<Rightarrow> error + bool" where
  "is_acyclic limit g =
     (case get_all_complete_paths limit g of
        Inl e \<Rightarrow> Inl e
      | Inr paths \<Rightarrow> no_closed_path paths)"

subsection \<open>Notions used to state the cycle detection\<close>

text \<open>The successors of a key (none for a key that is no node), the edge relation,
  and what it is for a graph to contain a directed cycle.\<close>

definition succs :: "graph \<Rightarrow> string \<Rightarrow> string list" where
  "succs g key = (case map_of g key of None \<Rightarrow> [] | Some node \<Rightarrow> node)"

definition edges :: "graph \<Rightarrow> (string \<times> string) set" where
  "edges g = {(a, b). b \<in> set (succs g a)}"

definition has_cycle :: "graph \<Rightarrow> bool" where
  "has_cycle g = (\<exists>key. (key, key) \<in> (edges g)\<^sup>+)"

text \<open>Every successor key is a node of the graph (no dangling edge).\<close>

definition no_dangling :: "graph \<Rightarrow> bool" where
  "no_dangling g = list_all (\<lambda>(key, node). list_all (\<lambda>child. child \<in> set (map fst g)) node) g"

text \<open>A list of keys is a walk when each key is followed by one of its successors.\<close>

fun is_walk :: "graph \<Rightarrow> string list \<Rightarrow> bool" where
  "is_walk g [] = True"
| "is_walk g [x] = True"
| "is_walk g (x # y # zs) = (y \<in> set (succs g x) \<and> is_walk g (y # zs))"

text \<open>
  The traversal with start key \<open>start\<close> stops at a key without successors and at the
  start key.  \<open>branch g start c ws\<close>: from \<open>c\<close> the traversal can follow the keys
  \<open>ws\<close> and stops at the last of them.
\<close>

definition stops :: "graph \<Rightarrow> string \<Rightarrow> string \<Rightarrow> bool" where
  "stops g start c = (succs g c = [] \<or> c = start)"

fun branch :: "graph \<Rightarrow> string \<Rightarrow> string \<Rightarrow> string list \<Rightarrow> bool" where
  "branch g start c [] = stops g start c"
| "branch g start c (w # ws) = (\<not> stops g start c \<and> w \<in> set (succs g c) \<and> branch g start w ws)"

text \<open>A cycle that is entered from outside: \<open>S\<close> leads to \<open>A\<close>, and \<open>A\<close> and
  \<open>B\<close> lead to each other.\<close>

definition lasso_graph :: graph where
  "lasso_graph = [(''S'', [''A'']), (''A'', [''B'']), (''B'', [''A''])]"

section \<open>core/connection and control/interface.py\<close>

text \<open>
  A client object holds its class and target address.  \<open>client_types\<close> has the single
  entry \<open>"tcp"\<close>; \<open>TCPClient.send\<close> is the environment's \<open>client_send\<close> at the
  client's address.
\<close>

datatype client_class = TCPClient

record client =
  cls :: client_class
  target_hostname :: string
  target_port :: int

definition target_address :: "client \<Rightarrow> string \<times> int" where
  "target_address c = (target_hostname c, target_port c)"

definition client_types :: "string \<Rightarrow> error + client_class" where
  "client_types type = (if type = ''tcp'' then Inr TCPClient else Inl (Raised KeyError type))"

text \<open>A queued request is \<open>(method, kwargs)\<close>.\<close>

type_synonym request = "string \<times> pydict"

definition requests_value :: "request list \<Rightarrow> pyval" where
  "requests_value rs = VList (map (\<lambda>(method, kwargs). VTuple [VStr method, VDict kwargs]) rs)"

text \<open>
  The handlers of a gate: the prebuilt \<open>InjectionHandler\<close> (a dictionary merged into the
  payload) and \<open>RequestFactory\<close> (a prepared request queue handed to the gate), and any
  other callable, taken as a function from the inserted payload to its result or
  exception (\<open>VNone\<close> for a handler that returns nothing).
\<close>

datatype handler =
    InjectionHandler pydict
  | RequestFactory "request list"
  | Callable "pyval \<Rightarrow> error + pyval"

text \<open>
  A \<open>Gate\<close> is a \<open>Node\<close> (the set of its successor keys, kept as a list without
  repetition in the set's iteration order) and a \<open>DriverInterface\<close> (request queue and
  bound client) with an optional handler.
\<close>

record gate =
  children :: "string list"
  handler :: "handler option"
  client :: "client option"
  requests :: "request list"

text \<open>
  \<^verbatim>\<open>
  def send(self) -> dict:
      encoded = Transaction("client", input=self.requests).encoded()
      try:
          received = Transaction.decode("server", self.client.send(encoded))
      except ValueError:
          received = Transaction("server", error="ValueError: Unable to send package. Try again")
      self.requests = []
      return received
  \<close>
  The result is the returned transaction or the exception that leaves \<open>send\<close>, with
  the gate as \<open>send\<close> leaves it.
\<close>

definition send :: "env \<Rightarrow> gate \<Rightarrow> (error + transaction) \<times> gate" where
  "send ev g =
     (case transaction_init ''client'' [(''input'', requests_value (requests g))] of
        Inl e \<Rightarrow> (Inl e, g)
      | Inr t \<Rightarrow>
          (case encoded ev t of
             Inl e \<Rightarrow> (Inl e, g)
           | Inr enc \<Rightarrow>
               (case (case client g of
                        None \<Rightarrow> Inl (Raised AttributeError ''NoneType object has no attribute send'')
                      | Some c \<Rightarrow>
                          (case client_send ev (target_address c) enc of
                             Inl e \<Rightarrow> Inl e
                           | Inr reply \<Rightarrow> decode_transaction ev ''server'' reply)) of
                  Inr received \<Rightarrow> (Inr received, g\<lparr>requests := []\<rparr>)
                | Inl e \<Rightarrow>
                    if exc_isinstance (exc_class e) ValueError
                    then (case transaction_init ''server''
                                 [(''error'', VStr ''ValueError: Unable to send package. Try again'')] of
                            Inl e' \<Rightarrow> (Inl e', g)
                          | Inr received \<Rightarrow> (Inr received, g\<lparr>requests := []\<rparr>))
                    else (Inl e, g))))"

text \<open>An environment with canned answers: every dump is \<open>b\<close>, every load is \<open>v\<close>,
  every reply of a peer is \<open>r\<close>.  It instantiates the parameters in closed examples.\<close>

definition canned_env :: "bytes \<Rightarrow> pyval \<Rightarrow> bytes \<Rightarrow> env" where
  "canned_env b v r =
     \<lparr>msgpack_dumps = (\<lambda>x. Inr b), msgpack_loads = (\<lambda>y. Inr v),
      client_send = (\<lambda>a x. Inr r), json_loads = (\<lambda>y. Inr v), json_dumps = (\<lambda>x. Inr b)\<rparr>"

section \<open>control/gatenetwork.py\<close>

subsection \<open>The standard evaluators\<close>

text \<open>
  \<open>a < b\<close>, \<open>a > b\<close>, \<open>a <= b\<close> and \<open>a >= b\<close>: numbers compare by value, strings
  and sequences lexicographically (a sequence by its first pair of unequal elements),
  and any other pair of operands raises \<open>TypeError\<close>.
\<close>

datatype cmp_op = Lt | Gt | Le | Ge

fun cmp_of :: "cmp_op \<Rightarrow> bool \<Rightarrow> bool \<Rightarrow> bool" where
  "cmp_of Lt is_less is_equal = is_less"
| "cmp_of Le is_less is_equal = (is_less \<or> is_equal)"
| "cmp_of Gt is_less is_equal = (\<not> is_less \<and> \<not> is_equal)"
| "cmp_of Ge is_less is_equal = (\<not> is_less)"

fun str_less :: "string \<Rightarrow> string \<Rightarrow> bool" where
  "str_less [] [] = False"
| "str_less [] (y # ys) = True"
| "str_less (x # xs) [] = False"
| "str_less (x # xs) (y # ys) = ((of_char x :: nat) < of_char y \<or> (x = y \<and> str_less xs ys))"

definition unorderable :: "pyval \<Rightarrow> pyval \<Rightarrow> error" where
  "unorderable a b =
     Raised TypeError (''comparison not supported between instances of '' @ type_name a @
       '' and '' @ type_name b)"

definition num_cmp :: "cmp_op \<Rightarrow> pyval \<Rightarrow> pyval \<Rightarrow> error + bool" where
  "num_cmp op a b =
     (case num_value a of
        None \<Rightarrow> Inl (unorderable a b)
      | Some x \<Rightarrow>
          (case num_value b of
             None \<Rightarrow> Inl (unorderable a b)
           | Some y \<Rightarrow> Inr (cmp_of op (x < y) (x = y))))"

fun seq_cmp ::
  "cmp_op \<Rightarrow> ((pyval \<Rightarrow> bool) \<times> (cmp_op \<Rightarrow> pyval \<Rightarrow> error + bool)) list \<Rightarrow> pyval list \<Rightarrow>
     error + bool" where
  "seq_cmp op [] [] = Inr (cmp_of op False True)"
| "seq_cmp op [] (y # ys) = Inr (cmp_of op True False)"
| "seq_cmp op (x # xs) [] = Inr (cmp_of op False False)"
| "seq_cmp op ((eq, cmp) # xs) (y # ys) = (if eq y then seq_cmp op xs ys else cmp op y)"

primrec py_cmp :: "pyval \<Rightarrow> cmp_op \<Rightarrow> pyval \<Rightarrow> error + bool" where
  "py_cmp VNone = (\<lambda>op b. Inl (unorderable VNone b))"
| "py_cmp (VBool x) = (\<lambda>op b. num_cmp op (VBool x) b)"
| "py_cmp (VInt x) = (\<lambda>op b. num_cmp op (VInt x) b)"
| "py_cmp (VFloat x) = (\<lambda>op b. num_cmp op (VFloat x) b)"
| "py_cmp (VStr x) = (\<lambda>op b. case b of
       VStr y \<Rightarrow> Inr (cmp_of op (str_less x y) (x = y))
     | _ \<Rightarrow> Inl (unorderable (VStr x) b))"
| "py_cmp (VList xs) = (\<lambda>op b. case b of
       VList ys \<Rightarrow> seq_cmp op (zip (map py_eq xs) (map py_cmp xs)) ys
     | _ \<Rightarrow> Inl (unorderable (VList xs) b))"
| "py_cmp (VTuple xs) = (\<lambda>op b. case b of
       VTuple ys \<Rightarrow> seq_cmp op (zip (map py_eq xs) (map py_cmp xs)) ys
     | _ \<Rightarrow> Inl (unorderable (VTuple xs) b))"
| "py_cmp (VDict d) = (\<lambda>op b. Inl (unorderable (VDict d) b))"

text \<open>An evaluator takes the edge's value and the value found in the activation
  result; what matters of its result is whether it is true.\<close>

type_synonym evaluator = "pyval \<Rightarrow> pyval \<Rightarrow> error + bool"

text \<open>
  \<^verbatim>\<open>
  _standard_evaluators = {
      "eq": lambda a, b: a == b,  "ne": lambda a, b: a != b,
      "lt": lambda a, b: a < b,   "gt": lambda a, b: a > b,
      "le": lambda a, b: a <= b,  "ge": lambda a, b: a >= b
  }
  \<close>
\<close>

definition standard_evaluators :: "string \<Rightarrow> error + evaluator" where
  "standard_evaluators name =
     (if name = ''eq'' then Inr (\<lambda>a b. Inr (py_eq a b))
      else if name = ''ne'' then Inr (\<lambda>a b. Inr (\<not> py_eq a b))
      else if name = ''lt'' then Inr (\<lambda>a b. py_cmp a Lt b)
      else if name = ''gt'' then Inr (\<lambda>a b. py_cmp a Gt b)
      else if name = ''le'' then Inr (\<lambda>a b. py_cmp a Le b)
      else if name = ''ge'' then Inr (\<lambda>a b. py_cmp a Ge b)
      else Inl (Raised KeyError name))"

subsection \<open>The network and its graph\<close>

type_synonym condition = "string \<times> evaluator \<times> pyval"

text \<open>
  A \<open>GateNetwork\<close> is the dictionary of its gates (it is the \<open>DirectedGraph\<close>) with
  the context, the busy flag, the conditional edges, the clients and the generation
  counter.  Gate keys, client labels and field paths are strings.
\<close>

record network =
  gates :: "(string \<times> gate) list"
  context_dict :: pydict
  is_busy :: bool
  conditional_edges :: "((string \<times> string) \<times> condition) list"
  clients :: "(string \<times> client) list"
  generation_count :: nat

text \<open>\<open>in_neighbors\<close>: \<open>set([k for k, n in self.items() if key in n])\<close>.\<close>

definition in_neighbors :: "network \<Rightarrow> string \<Rightarrow> string list" where
  "in_neighbors net key = map fst (filter (\<lambda>(k, n). key \<in> set (children n)) (gates net))"

text \<open>\<open>Node.add\<close>: a set keeps one copy of an element.\<close>

definition set_add :: "string \<Rightarrow> string list \<Rightarrow> string list" where
  "set_add x xs = (if x \<in> set xs then xs else xs @ [x])"

text \<open>
  \<^verbatim>\<open>
  def add_edge(self, from_key: Hashable, to_key: Hashable):      # DirectedGraph
      if from_key == to_key:
          raise ValueError("A noe cannot be connected to itself")
      self[from_key].add(to_key)
  \<close>
\<close>

definition graph_add_edge :: "network \<Rightarrow> string \<Rightarrow> string \<Rightarrow> (error + unit) \<times> network" where
  "graph_add_edge net from_key to_key =
     (if from_key = to_key
      then (Inl (Raised ValueError ''A noe cannot be connected to itself''), net)
      else (case map_of (gates net) from_key of
              None \<Rightarrow> (Inl (Raised KeyError from_key), net)
            | Some g \<Rightarrow>
                (Inr (), net\<lparr>gates :=
                   AList.update from_key (g\<lparr>children := set_add to_key (children g)\<rparr>) (gates net)\<rparr>)))"

text \<open>The \<open>evaluator\<close> argument of \<open>add_edge\<close>: the name of a standard evaluator or a
  callable.\<close>

datatype evaluator_arg = Named string | Custom evaluator

fun truthy_evaluator :: "evaluator_arg \<Rightarrow> bool" where
  "truthy_evaluator (Named name) = (name \<noteq> [])"
| "truthy_evaluator (Custom f) = True"

fun truthy_key :: "string option \<Rightarrow> bool" where
  "truthy_key None = False"
| "truthy_key (Some k) = (k \<noteq> [])"

text \<open>\<open>evaluator if callable(evaluator) else _standard_evaluators[evaluator]\<close>\<close>

fun resolve_evaluator :: "evaluator_arg \<Rightarrow> error + evaluator" where
  "resolve_evaluator (Custom f) = Inr f"
| "resolve_evaluator (Named name) = standard_evaluators name"

text \<open>\<open>lambda a, b: not evaluator(a, b)\<close>\<close>

definition negated :: "evaluator \<Rightarrow> evaluator" where
  "negated f = (\<lambda>a b. case f a b of Inl e \<Rightarrow> Inl e | Inr r \<Rightarrow> Inr (\<not> r))"

text \<open>
  \<^verbatim>\<open>
  def add_edge(self, from_gate, to_gate, key=None, value=None, evaluator="eq", fallback=None):
      if key and evaluator and value is not None:
          evaluator = evaluator if callable(evaluator) else _standard_evaluators[evaluator]
          self._conditional_edges[(from_gate, to_gate)] = (key, evaluator, value)
          if fallback:
              self.add_edge(from_gate, fallback, key, value, lambda a, b: not evaluator(a, b))
      super(GateNetwork, self).add_edge(from_gate, to_gate)
  \<close>
  The inner call passes no fallback, so the recursion is one level deep.  An exception
  leaves the entries written before it in place.
\<close>

function add_edge ::
  "network \<Rightarrow> string \<Rightarrow> string \<Rightarrow> string option \<Rightarrow> pyval \<Rightarrow> evaluator_arg \<Rightarrow> string option \<Rightarrow>
     (error + unit) \<times> network" where
  "add_edge net from_gate to_gate key val evaluator fallback =
     (if truthy_key key \<and> truthy_evaluator evaluator \<and> val \<noteq> VNone
      then (case resolve_evaluator evaluator of
              Inl e \<Rightarrow> (Inl e, net)
            | Inr f \<Rightarrow>
                (let net1 = net\<lparr>conditional_edges :=
                       AList.update (from_gate, to_gate) (the key, f, val) (conditional_edges net)\<rparr>
                 in if truthy_key fallback
                    then (case add_edge net1 from_gate (the fallback) key val (Custom (negated f)) None of
                            (Inl e, net2) \<Rightarrow> (Inl e, net2)
                          | (Inr u, net2) \<Rightarrow> graph_add_edge net2 from_gate to_gate)
                    else graph_add_edge net1 from_gate to_gate))
      else graph_add_edge net from_gate to_gate)"
  by pat_completeness auto
termination
  by (relation "measure (\<lambda>(net, from_gate, to_gate, key, val, evaluator, fallback).
        if truthy_key fallback then 1 else 0)") auto

declare add_edge.simps [simp del]

text \<open>
  \<^verbatim>\<open>
  def remove_edge(self, from_gate: Hashable, to_gate: Hashable):
      edge = (from_gate, to_gate)
      if edge in self._conditional_edges:
          del self._conditional_edges[edge]
      super(GateNetwork, self).remove_edge(from_gate, to_gate)     # self[from_key].remove(to_key)
  \<close>
\<close>

definition remove_edge :: "network \<Rightarrow> string \<Rightarrow> string \<Rightarrow> (error + unit) \<times> network" where
  "remove_edge net from_gate to_gate =
     (let net1 = net\<lparr>conditional_edges := AList.delete (from_gate, to_gate) (conditional_edges net)\<rparr>
      in case map_of (gates net1) from_gate of
           None \<Rightarrow> (Inl (Raised KeyError from_gate), net1)
         | Some g \<Rightarrow>
             if to_gate \<notin> set (children g) then (Inl (Raised KeyError to_gate), net1)
             else (Inr (), net1\<lparr>gates :=
                     AList.update from_gate (g\<lparr>children := removeAll to_gate (children g)\<rparr>) (gates net1)\<rparr>))"

subsection \<open>Clients\<close>

text \<open>
  \<^verbatim>\<open>
  def client_exists(self, type: str, target_hostname: str, target_port: int) -> bool:
      for client in self._clients.values():
          if client.target_address == (target_hostname, target_port) and isinstance(client, client_types[type]):
              return True
      return False
  \<close>
\<close>

fun client_exists_in :: "client list \<Rightarrow> string \<Rightarrow> string \<Rightarrow> int \<Rightarrow> error + bool" where
  "client_exists_in [] type hostname port = Inr False"
| "client_exists_in (c # cs) type hostname port =
     (if target_address c = (hostname, port)
      then (case client_types type of
              Inl e \<Rightarrow> Inl e
            | Inr k \<Rightarrow> if cls c = k then Inr True else client_exists_in cs type hostname port)
      else client_exists_in cs type hostname port)"

definition client_exists :: "network \<Rightarrow> string \<Rightarrow> string \<Rightarrow> int \<Rightarrow> error + bool" where
  "client_exists net type hostname port =
     client_exists_in (map snd (clients net)) type hostname port"

text \<open>
  \<^verbatim>\<open>
  def define_client(self, label: str, target_hostname: str, target_port: int, type: str = "tcp"):
      if self.client_exists(type, target_hostname, target_port):
          raise RuntimeError("Tried to define a client '{}' that already exists. A client must "
                             "have a unique label and a unique info (type, hostname, and port).".format(label))
      self._clients[label] = client_types[type](target_hostname, target_port)
  \<close>
\<close>

definition define_client ::
  "network \<Rightarrow> string \<Rightarrow> string \<Rightarrow> int \<Rightarrow> string \<Rightarrow> (error + unit) \<times> network" where
  "define_client net label hostname port type =
     (case client_exists net type hostname port of
        Inl e \<Rightarrow> (Inl e, net)
      | Inr True \<Rightarrow>
          (Inl (Raised RuntimeError (''Tried to define a client '' @ label @
             '' that already exists. A client must have a unique label and a unique info (type, hostname, and port).'')),
           net)
      | Inr False \<Rightarrow>
          (case client_types type of
             Inl e \<Rightarrow> (Inl e, net)
           | Inr k \<Rightarrow>
               (Inr (), net\<lparr>clients :=
                  AList.update label \<lparr>cls = k, target_hostname = hostname, target_port = port\<rparr>
                    (clients net)\<rparr>)))"

text \<open>Unpacking \<open>type, target_hostname, target_port = obj\<close> needs an iterable; a client
  object is none.\<close>

definition unpack_client :: "client \<Rightarrow> error + (string \<times> string \<times> int)" where
  "unpack_client c = Inl (Raised TypeError ''cannot unpack non-iterable TCPClient object'')"

text \<open>
  \<^verbatim>\<open>
  def delete_client(self, label: str):
      type, target_hostname, target_port = self._clients.pop(label)
      for gate in self.values():
          if isinstance(gate.client, client_types[type]):
              if gate.client.target_address == (target_hostname, target_port):
                  gate.client = None
  \<close>
  The table holds what \<open>define_client\<close> stored: client objects.
\<close>

fun unbind_gates ::
  "(string \<times> gate) list \<Rightarrow> string \<Rightarrow> string \<Rightarrow> int \<Rightarrow> error + (string \<times> gate) list" where
  "unbind_gates [] type hostname port = Inr []"
| "unbind_gates ((key, g) # rest) type hostname port =
     (case client_types type of
        Inl e \<Rightarrow> Inl e
      | Inr k \<Rightarrow>
          (case unbind_gates rest type hostname port of
             Inl e \<Rightarrow> Inl e
           | Inr rest' \<Rightarrow>
               Inr ((key,
                 (case client g of
                    None \<Rightarrow> g
                  | Some c \<Rightarrow>
                      if cls c = k \<and> target_address c = (hostname, port)
                      then g\<lparr>client := None\<rparr> else g)) # rest')))"

definition delete_client :: "network \<Rightarrow> string \<Rightarrow> (error + unit) \<times> network" where
  "delete_client net label =
     (case map_of (clients net) label of
        None \<Rightarrow> (Inl (Raised KeyError label), net)
      | Some popped \<Rightarrow>
          (let net1 = net\<lparr>clients := AList.delete label (clients net)\<rparr>
           in case unpack_client popped of
                Inl e \<Rightarrow> (Inl e, net1)
              | Inr (type, hostname, port) \<Rightarrow>
                  (case unbind_gates (gates net1) type hostname port of
                     Inl e \<Rightarrow> (Inl e, net1)
                   | Inr gs \<Rightarrow> (Inr (), net1\<lparr>gates := gs\<rparr>))))"

text \<open>
  \<^verbatim>\<open>
  def bind_to_client(self, gate_key: Hashable, client_label: str):
      self[gate_key].client = self._clients[client_label]
  \<close>
\<close>

definition bind_to_client :: "network \<Rightarrow> string \<Rightarrow> string \<Rightarrow> (error + unit) \<times> network" where
  "bind_to_client net gate_key client_label =
     (case map_of (gates net) gate_key of
        None \<Rightarrow> (Inl (Raised KeyError gate_key), net)
      | Some g \<Rightarrow>
          (case map_of (clients net) client_label of
             None \<Rightarrow> (Inl (Raised KeyError client_label), net)
           | Some c \<Rightarrow>
               (Inr (), net\<lparr>gates := AList.update gate_key (g\<lparr>client := Some c\<rparr>) (gates net)\<rparr>)))"

text \<open>
  \<^verbatim>\<open>
  def add_gate(self, key: Hashable, handler: Callable = None, client_label: str = None):
      new_gate = Gate(handler)
      super(GateNetwork, self).add_node(key=key, node=new_gate)
      new_gate.context = self.context
      if client_label is not None:
          self.bind_to_client(key, client_label)
  \<close>
  The gate's \<open>context\<close> is the network's own dictionary, so the gate holds no copy.
\<close>

definition add_gate ::
  "network \<Rightarrow> string \<Rightarrow> handler option \<Rightarrow> string option \<Rightarrow> (error + unit) \<times> network" where
  "add_gate net key h client_label =
     (let net1 = net\<lparr>gates :=
            AList.update key \<lparr>children = [], handler = h, client = None, requests = []\<rparr> (gates net)\<rparr>
      in case client_label of
           None \<Rightarrow> (Inr (), net1)
         | Some label \<Rightarrow> bind_to_client net1 key label)"

subsection \<open>Gate activation\<close>

text \<open>\<open>d.update(other)\<close> on dictionaries: every item of \<open>other\<close> is assigned in
  turn.\<close>

definition dict_update :: "pydict \<Rightarrow> pydict \<Rightarrow> pydict" where
  "dict_update d other = fold (\<lambda>(key, val). AList.update key val) other d"

text \<open>
  \<open>target.update(other)\<close> on values: only a dictionary has the method
  (\<open>AttributeError\<close> otherwise).  The payloads merged by the network are dictionaries;
  an argument that is none is rejected with \<open>TypeError\<close> (Python would also accept an
  iterable of key-value pairs).
\<close>

definition py_update :: "pyval \<Rightarrow> pyval \<Rightarrow> error + pyval" where
  "py_update target other =
     (case target of
        VDict d \<Rightarrow>
          (case other of
             VDict items \<Rightarrow> Inr (VDict (dict_update d items))
           | _ \<Rightarrow> Inl (Raised TypeError (type_name other @ '' object is not iterable'')))
      | _ \<Rightarrow> Inl (Raised AttributeError (type_name target @ '' object has no attribute update'')))"

text \<open>
  \<^verbatim>\<open>
  def update_item(mapping: dict, key, value) -> dict:
      if key in mapping:
          mapping[key].update(value)
      else:
          mapping[key] = value
      return mapping
  \<close>
\<close>

definition update_item :: "pydict \<Rightarrow> string \<Rightarrow> pyval \<Rightarrow> error + pydict" where
  "update_item mapping key val =
     (case map_of mapping key of
        Some old \<Rightarrow>
          (case py_update old val of
             Inl e \<Rightarrow> Inl e
           | Inr new \<Rightarrow> Inr (AList.update key new mapping))
      | None \<Rightarrow> Inr (AList.update key val mapping))"

text \<open>
  Calling a handler with the gate and the inserted payload:
  \<^verbatim>\<open>
  class InjectionHandler(dict, _HandlerABC):
      def __call__(self, gate: Gate, payload: dict):
          payload = {} if payload is None else payload
          payload.update(self)
          return payload

  class RequestFactory(RequestsWrapper, _HandlerABC):
      def __call__(self, gate, payload: dict):
          gate.requests = self.requests
          return payload
  \<close>
\<close>

fun call_handler :: "handler \<Rightarrow> gate \<Rightarrow> pyval \<Rightarrow> (error + pyval) \<times> gate" where
  "call_handler (InjectionHandler d) g payload =
     (py_update (if payload = VNone then VDict [] else payload) (VDict d), g)"
| "call_handler (RequestFactory rs) g payload = (Inr payload, g\<lparr>requests := rs\<rparr>)"
| "call_handler (Callable f) g payload = (f payload, g)"

text \<open>
  \<^verbatim>\<open>
  def activate(self, inserted: dict = None):
      inserted = {} if inserted is None else inserted
      handled = inserted if self._handler is None else self._handler(self, inserted)
      handled = {} if handled is None else handled
      if self.client is not None:
          handled.update(self.send())
      return handled
  \<close>
  \<open>handled.update\<close> is looked up before \<open>send\<close> is called.
\<close>

definition activate :: "env \<Rightarrow> gate \<Rightarrow> pyval \<Rightarrow> (error + pyval) \<times> gate" where
  "activate ev g inserted =
     (case (case handler g of
              None \<Rightarrow> (Inr (if inserted = VNone then VDict [] else inserted), g)
            | Some h \<Rightarrow> call_handler h g (if inserted = VNone then VDict [] else inserted)) of
        (Inl e, g1) \<Rightarrow> (Inl e, g1)
      | (Inr result, g1) \<Rightarrow>
          (let handled = (if result = VNone then VDict [] else result)
           in case client g1 of
                None \<Rightarrow> (Inr handled, g1)
              | Some c \<Rightarrow>
                  (case handled of
                     VDict h \<Rightarrow>
                       (case send ev g1 of
                          (Inl e, g2) \<Rightarrow> (Inl e, g2)
                        | (Inr received, g2) \<Rightarrow> (Inr (VDict (dict_update h (contents received))), g2))
                   | _ \<Rightarrow>
                       (Inl (Raised AttributeError
                          (type_name handled @ '' object has no attribute update'')), g1))))"

subsection \<open>The resolution algorithm\<close>

text \<open>
  Payloads are modelled as values.  In the source a payload is a dictionary object, and
  one object can be handed to several gates: the activation result of a gate is scheduled
  as it is for each of its successors, and a gate without handler returns the object it
  was given.  An in-place merge (\<open>update\<close>) into such an object is then seen wherever
  the object is held.  The model follows this within the loop over one gate's successors
  (see \<open>schedule_child\<close>); it does not follow it between different gates.  The two
  agree on every generation in which no gate is a successor of two firing gates, since
  then nothing is merged, and on every run in which no handler changes its payload in
  place.
\<close>

text \<open>
  The required parents of \<open>child\<close> along the edge from \<open>gate_key\<close>:
  \<^verbatim>\<open>
  parents = {
      parent for parent in self.in_neighbors(next_gate_key)
      if not (is_conditional or (parent, child) in self._conditional_edges or parent != gate_key)
  }
  \<close>
\<close>

definition required_parents :: "network \<Rightarrow> string \<Rightarrow> string \<Rightarrow> bool \<Rightarrow> string list" where
  "required_parents net gate_key child is_conditional =
     filter (\<lambda>parent. \<not> (is_conditional \<or>
                (parent, child) \<in> set (map fst (conditional_edges net)) \<or> parent \<noteq> gate_key))
       (in_neighbors net child)"

text \<open>
  The payloads parked for the child are merged into the outgoing payload:
  \<^verbatim>\<open>
  for parent_key, parent_activation_result in carry_overs.pop(next_gate_key).items():
      carry_over_parents.add(parent_key)
      next_gate_payload.update(parent_activation_result)
  \<close>
\<close>

fun merge_carried :: "pydict \<Rightarrow> string list \<Rightarrow> pyval \<Rightarrow> error + (string list \<times> pyval)" where
  "merge_carried [] carry_over_parents payload = Inr (carry_over_parents, payload)"
| "merge_carried ((parent_key, parent_result) # rest) carry_over_parents payload =
     (case py_update payload parent_result of
        Inl e \<Rightarrow> Inl e
      | Inr payload' \<Rightarrow> merge_carried rest (carry_over_parents @ [parent_key]) payload')"

text \<open>
  The part of the loop body after the condition has let the edge pass.  The state is
  the activation result of the firing gate, the gates scheduled so far and the
  carry-overs.  \<open>next_gate_payload\<close> is the activation result itself (the same
  dictionary object), so merging the carry-overs into it changes the activation result
  that the gate's remaining edges see: the merged payload is the new activation result.
  \<^verbatim>\<open>
  carry_over_parents = set()
  next_gate_payload = activation_result
  if next_gate_key in carry_overs:
      ...
  if parents.issubset(carry_over_parents.union(current)):
      update_item(next_gates, next_gate_key, next_gate_payload)
  else:
      update_item(carry_overs, next_gate_key, {gate_key: activation_result})
  \<close>
\<close>

definition schedule_child ::
  "network \<Rightarrow> pydict \<Rightarrow> string \<Rightarrow> string \<Rightarrow> bool \<Rightarrow> pyval \<times> pydict \<times> pydict \<Rightarrow>
     error + (pyval \<times> pydict \<times> pydict)" where
  "schedule_child net current gate_key child is_conditional st =
     (case st of (activation_result, next_gates, carry_overs) \<Rightarrow>
        (case (case map_of carry_overs child of
                 None \<Rightarrow> Inr ([], activation_result, carry_overs)
               | Some (VDict parked) \<Rightarrow>
                   (case merge_carried parked [] activation_result of
                      Inl e \<Rightarrow> Inl e
                    | Inr (carry_over_parents, payload) \<Rightarrow>
                        Inr (carry_over_parents, payload, AList.delete child carry_overs))
               | Some v \<Rightarrow>
                   Inl (Raised AttributeError (type_name v @ '' object has no attribute items''))) of
           Inl e \<Rightarrow> Inl e
         | Inr (carry_over_parents, payload, carry_overs1) \<Rightarrow>
             if list_all (\<lambda>parent. parent \<in> set carry_over_parents \<union> set (map fst current))
                  (required_parents net gate_key child is_conditional)
             then (case update_item next_gates child payload of
                     Inl e \<Rightarrow> Inl e
                   | Inr next_gates' \<Rightarrow> Inr (payload, next_gates', carry_overs1))
             else (case update_item carry_overs1 child (VDict [(gate_key, payload)]) of
                     Inl e \<Rightarrow> Inl e
                   | Inr carry_overs' \<Rightarrow> Inr (payload, next_gates, carry_overs'))))"

text \<open>
  The loop body for one successor:
  \<^verbatim>\<open>
  edge = (gate_key, child)
  is_conditional = edge in self._conditional_edges
  if is_conditional:
      key, evaluator, value = self._conditional_edges[edge]
      if evaluator(value, get_nested(key, activation_result)):
          next_gate_key = child
      else:
          continue
  \<close>
\<close>

definition route_child ::
  "network \<Rightarrow> pydict \<Rightarrow> string \<Rightarrow> string \<Rightarrow> pyval \<times> pydict \<times> pydict \<Rightarrow>
     error + (pyval \<times> pydict \<times> pydict)" where
  "route_child net current gate_key child st =
     (case map_of (conditional_edges net) (gate_key, child) of
        None \<Rightarrow> schedule_child net current gate_key child False st
      | Some (key, evaluator, val) \<Rightarrow>
          (case get_nested key (fst st) of
             Inl e \<Rightarrow> Inl e
           | Inr found \<Rightarrow>
               (case evaluator val found of
                  Inl e \<Rightarrow> Inl e
                | Inr passes \<Rightarrow>
                    if passes then schedule_child net current gate_key child True st
                    else Inr st)))"

fun route_children ::
  "network \<Rightarrow> pydict \<Rightarrow> string \<Rightarrow> string list \<Rightarrow> pyval \<times> pydict \<times> pydict \<Rightarrow>
     error + (pyval \<times> pydict \<times> pydict)" where
  "route_children net current gate_key [] st = Inr st"
| "route_children net current gate_key (child # rest) st =
     (case route_child net current gate_key child st of
        Inl e \<Rightarrow> Inl e
      | Inr st' \<Rightarrow> route_children net current gate_key rest st')"

text \<open>
  The first loop of \<open>_get_next_generation\<close>, over the items of \<open>current\<close> that are
  still to be processed; it fills \<open>next_gates\<close>, \<open>carry_overs\<close> and \<open>completed\<close>.
  \<^verbatim>\<open>
  for gate_key, activation_result in current.items():
      activation_result = {} if activation_result is None else activation_result
      if not len(self[gate_key]):
          completed[gate_key] = activation_result
          continue
      for child in self[gate_key]:
          ...
  \<close>
\<close>

fun schedule ::
  "network \<Rightarrow> pydict \<Rightarrow> pydict \<Rightarrow> pydict \<times> pydict \<times> pydict \<Rightarrow>
     error + (pydict \<times> pydict \<times> pydict)" where
  "schedule net current [] acc = Inr acc"
| "schedule net current ((gate_key, result) # rest) (next_gates, carry_overs, completed) =
     (case map_of (gates net) gate_key of
        None \<Rightarrow> Inl (Raised KeyError gate_key)
      | Some g \<Rightarrow>
          if children g = []
          then schedule net current rest
                 (next_gates, carry_overs,
                  AList.update gate_key (if result = VNone then VDict [] else result) completed)
          else (case route_children net current gate_key (children g)
                       (if result = VNone then VDict [] else result, next_gates, carry_overs) of
                  Inl e \<Rightarrow> Inl e
                | Inr (activation_result, next_gates', carry_overs') \<Rightarrow>
                    schedule net current rest (next_gates', carry_overs', completed)))"

text \<open>
  The second loop activates every scheduled gate once:
  \<^verbatim>\<open>
  for next_gate_key, activation_input in next_gates.items():
      next_generation[next_gate_key] = self[next_gate_key](activation_input)
  \<close>
\<close>

fun activate_all :: "env \<Rightarrow> network \<Rightarrow> pydict \<Rightarrow> pydict \<Rightarrow> (error + pydict) \<times> network" where
  "activate_all ev net [] next_generation = (Inr next_generation, net)"
| "activate_all ev net ((next_gate_key, activation_input) # rest) next_generation =
     (case map_of (gates net) next_gate_key of
        None \<Rightarrow> (Inl (Raised KeyError next_gate_key), net)
      | Some g \<Rightarrow>
          (case activate ev g activation_input of
             (Inl e, g') \<Rightarrow> (Inl e, net\<lparr>gates := AList.update next_gate_key g' (gates net)\<rparr>)
           | (Inr out, g') \<Rightarrow>
               activate_all ev (net\<lparr>gates := AList.update next_gate_key g' (gates net)\<rparr>) rest
                 (AList.update next_gate_key out next_generation)))"

text \<open>\<open>_get_next_generation\<close> returns the next generation and the carry-overs; the
  \<open>completed\<close> dictionary it has written to is returned with them.\<close>

definition get_next_generation ::
  "env \<Rightarrow> network \<Rightarrow> pydict \<Rightarrow> pydict \<Rightarrow> pydict \<Rightarrow>
     (error + (pydict \<times> pydict \<times> pydict)) \<times> network" where
  "get_next_generation ev net current carry_overs completed =
     (case schedule net current current ([], carry_overs, completed) of
        Inl e \<Rightarrow> (Inl e, net)
      | Inr (next_gates, carry_overs', completed') \<Rightarrow>
          (case activate_all ev net next_gates [] of
             (Inl e, net') \<Rightarrow> (Inl e, net')
           | (Inr next_generation, net') \<Rightarrow>
               (Inr (next_generation, carry_overs', completed'), net')))"

text \<open>
  The loop of \<open>_resolve\<close> has no bound; a run that never reaches an empty generation
  does not return, which is the value \<open>None\<close>.
  \<^verbatim>\<open>
  while True:
      self.generation_count += 1
      current_generation, carry_overs = self._get_next_generation(current_generation, carry_overs, completed)
      if not len(current_generation):
          return completed
  \<close>
\<close>

partial_function (option) resolve_loop ::
  "env \<Rightarrow> network \<Rightarrow> pydict \<Rightarrow> pydict \<Rightarrow> pydict \<Rightarrow> ((error + pydict) \<times> network) option" where
  "resolve_loop ev net current_generation carry_overs completed =
     (case get_next_generation ev (net\<lparr>generation_count := generation_count net + 1\<rparr>)
             current_generation carry_overs completed of
        (Inl e, net') \<Rightarrow> Some (Inl e, net')
      | (Inr (next_generation, carry_overs', completed'), net') \<Rightarrow>
          if next_generation = [] then Some (Inr completed', net')
          else resolve_loop ev net' next_generation carry_overs' completed')"

text \<open>
  \<^verbatim>\<open>
  def _resolve(self, gate_key: Hashable, payload: dict) -> dict:
      current_generation = {gate_key: self[gate_key](payload)}
      carry_overs = {}
      completed = {}
      while True: ...
  \<close>
\<close>

definition resolve :: "env \<Rightarrow> network \<Rightarrow> string \<Rightarrow> pyval \<Rightarrow> ((error + pydict) \<times> network) option" where
  "resolve ev net gate_key payload =
     (case map_of (gates net) gate_key of
        None \<Rightarrow> Some (Inl (Raised KeyError gate_key), net)
      | Some g \<Rightarrow>
          (case activate ev g payload of
             (Inl e, g') \<Rightarrow> Some (Inl e, net\<lparr>gates := AList.update gate_key g' (gates net)\<rparr>)
           | (Inr out, g') \<Rightarrow>
               resolve_loop ev (net\<lparr>gates := AList.update gate_key g' (gates net)\<rparr>)
                 [(gate_key, out)] [] []))"

text \<open>
  \<^verbatim>\<open>
  def run(self, start: Hashable, initial_payload=None):
      self.is_busy = True
      isolated = self.isolated()
      if len(isolated) and len(self):
          warnings.warn("Isolated: {}".format(', '.join(isolated)))
      result = self._resolve(start, initial_payload)
      self.is_busy = False
      return result
  \<close>
  The warning changes nothing.  An exception leaves the busy flag set.
\<close>

definition run :: "env \<Rightarrow> network \<Rightarrow> string \<Rightarrow> pyval \<Rightarrow> ((error + pydict) \<times> network) option" where
  "run ev net start initial_payload =
     (case resolve ev (net\<lparr>is_busy := True\<rparr>) start initial_payload of
        None \<Rightarrow> None
      | Some (Inl e, net') \<Rightarrow> Some (Inl e, net')
      | Some (Inr result, net') \<Rightarrow> Some (Inr result, net'\<lparr>is_busy := False\<rparr>))"

text \<open>The sentinel \<open>b"BUSY"\<close>.\<close>

definition BUSY :: bytes where
  "BUSY = [0x42, 0x55, 0x53, 0x59]"

text \<open>
  \<^verbatim>\<open>
  def _on_receive(self, received: bytes, client_address: tuple = None) -> bytes:
      if not self.is_busy:
          print("Received Request from {}".format(client_address))
          request_data = json.loads(received.decode("utf-8"))
          return json.dumps(self.run(
              start=request_data["start"],
              initial_payload=request_data["payload"] if "payload" in request_data else None
          )).encode("utf-8")
      else:
          return b"BUSY"
  \<close>
  The JSON functions of the environment go between bytes and values.  A start key that
  is no string names no gate: \<open>run\<close> sets the busy flag and the lookup of the gate
  raises (\<open>TypeError\<close> for an unhashable key, \<open>KeyError\<close> otherwise).
\<close>

definition on_receive ::
  "env \<Rightarrow> network \<Rightarrow> bytes \<Rightarrow> string \<times> int \<Rightarrow> ((error + bytes) \<times> network) option" where
  "on_receive ev net received client_address =
     (if \<not> is_busy net
      then (case json_loads ev received of
              Inl e \<Rightarrow> Some (Inl e, net)
            | Inr request_data \<Rightarrow>
                (case py_getitem request_data ''start'' of
                   Inl e \<Rightarrow> Some (Inl e, net)
                 | Inr start \<Rightarrow>
                     (case (case py_contains ''payload'' request_data of
                              Inl e \<Rightarrow> Inl e
                            | Inr True \<Rightarrow> py_getitem request_data ''payload''
                            | Inr False \<Rightarrow> Inr VNone) of
                        Inl e \<Rightarrow> Some (Inl e, net)
                      | Inr initial_payload \<Rightarrow>
                          (case start of
                             VStr key \<Rightarrow>
                               (case run ev net key initial_payload of
                                  None \<Rightarrow> None
                                | Some (Inl e, net') \<Rightarrow> Some (Inl e, net')
                                | Some (Inr result, net') \<Rightarrow> Some (json_dumps ev (VDict result), net'))
                           | VList xs \<Rightarrow>
                               Some (Inl (Raised TypeError ''unhashable type: list''), net\<lparr>is_busy := True\<rparr>)
                           | VDict d \<Rightarrow>
                               Some (Inl (Raised TypeError ''unhashable type: dict''), net\<lparr>is_busy := True\<rparr>)
                           | _ \<Rightarrow>
                               Some (Inl (Raised KeyError (type_name start)), net\<lparr>is_busy := True\<rparr>)))))
      else Some (Inr BUSY, net))"

subsection \<open>Notions used to state the routing properties\<close>

text \<open>Whether the edge from \<open>gate_key\<close> to \<open>child\<close> lets an activation result pass:
  an unconditional edge always, a conditional edge when its evaluator says so.\<close>

definition edge_passes :: "network \<Rightarrow> string \<Rightarrow> string \<Rightarrow> pyval \<Rightarrow> error + bool" where
  "edge_passes net gate_key child activation_result =
     (case map_of (conditional_edges net) (gate_key, child) of
        None \<Rightarrow> Inr True
      | Some (key, evaluator, val) \<Rightarrow>
          (case get_nested key activation_result of
             Inl e \<Rightarrow> Inl e
           | Inr found \<Rightarrow> evaluator val found))"

text \<open>The successors of a gate (none for a key that names no gate), and an
  activation result with \<open>None\<close> read as the empty dictionary.\<close>

definition children_of :: "network \<Rightarrow> string \<Rightarrow> string list" where
  "children_of net key = (case map_of (gates net) key of None \<Rightarrow> [] | Some g \<Rightarrow> children g)"

definition or_empty :: "pyval \<Rightarrow> pyval" where
  "or_empty result = (if result = VNone then VDict [] else result)"

text \<open>No gate is a successor of two gates that fire in the generation
  \<open>current\<close>.\<close>

definition no_shared_successor :: "network \<Rightarrow> pydict \<Rightarrow> bool" where
  "no_shared_successor net current =
     list_all (\<lambda>(G, rG). list_all (\<lambda>(H, rH).
        G = H \<or> set (children_of net G) \<inter> set (children_of net H) = {}) current) current"

text \<open>Three gates without handlers or clients: \<open>A\<close> and \<open>B\<close> both lead to \<open>C\<close>
  by unconditional edges.\<close>

definition join_network :: network where
  "join_network =
     \<lparr>gates = [(''A'', \<lparr>children = [''C''], handler = None, client = None, requests = []\<rparr>),
               (''B'', \<lparr>children = [''C''], handler = None, client = None, requests = []\<rparr>),
               (''C'', \<lparr>children = [], handler = None, client = None, requests = []\<rparr>)],
      context_dict = [], is_busy = False, conditional_edges = [], clients = [],
      generation_count = 0\<rparr>"

text \<open>Three gates without handlers, clients or edges.\<close>

definition abc_network :: network where
  "abc_network =
     \<lparr>gates = [(''A'', \<lparr>children = [], handler = None, client = None, requests = []\<rparr>),
               (''B'', \<lparr>children = [], handler = None, client = None, requests = []\<rparr>),
               (''C'', \<lparr>children = [], handler = None, client = None, requests = []\<rparr>)],
      context_dict = [], is_busy = False, conditional_edges = [], clients = [],
      generation_count = 0\<rparr>"

text \<open>One gate bound to the one defined client.\<close>

definition bound_network :: network where
  "bound_network =
     \<lparr>gates = [(''G'', \<lparr>children = [], handler = None,
                 client = Some \<lparr>cls = TCPClient, target_hostname = ''h1'', target_port = 1\<rparr>,
                 requests = []\<rparr>)],
      context_dict = [], is_busy = False, conditional_edges = [],
      clients = [(''a'', \<lparr>cls = TCPClient, target_hostname = ''h1'', target_port = 1\<rparr>)],
      generation_count = 0\<rparr>"

section \<open>embedded/driver.py\<close>

text \<open>
  The components and the platform below them are outside the protocol core; they are
  parameters: the table \<open>supported_components\<close> of constructors, whether a component
  is executable or readable, the call \<open>getattr(component, operation)(**kwargs)\<close> and
  \<open>component.read()\<close>.
\<close>

record 'c platform =
  supported_components :: "string \<Rightarrow> (pydict \<Rightarrow> error + 'c) option"
  is_executable :: "'c \<Rightarrow> bool"
  is_readable :: "'c \<Rightarrow> bool"
  call_operation :: "'c \<Rightarrow> string \<Rightarrow> pydict \<Rightarrow> error + 'c"
  read_component :: "'c \<Rightarrow> error + pyval"

text \<open>
  The driver holds its components and its routines by name, a routine being
  \<open>(entity, executor, operation, kwargs, interval)\<close>.  Names are strings, as the sources
  annotate them and as the dictionaries of this model require; a name of another type
  is outside the model and is answered by \<open>TypeError\<close>.
\<close>

record 'c driver =
  components :: "(string \<times> 'c) list"
  routines :: "(string \<times> pyval \<times> pyval \<times> pyval \<times> pyval \<times> pyval) list"

definition as_name :: "pyval \<Rightarrow> error + string" where
  "as_name v =
     (case v of
        VStr name \<Rightarrow> Inr name
      | _ \<Rightarrow> Inl (Raised TypeError (type_name v @ '' used as a name'')))"

text \<open>
  Calling a function with \<open>**kwargs\<close>: the keywords must be among the parameters and
  every parameter without a default must be given (\<open>TypeError\<close> otherwise).
\<close>

definition bind_kwargs :: "string list \<Rightarrow> string list \<Rightarrow> pydict \<Rightarrow> error + unit" where
  "bind_kwargs required optional kwargs =
     (if list_all (\<lambda>key. key \<in> set required \<union> set optional) (map fst kwargs) \<and>
         list_all (\<lambda>key. key \<in> set (map fst kwargs)) required
      then Inr ()
      else Inl (Raised TypeError ''missing or unexpected keyword argument''))"

definition kwarg :: "pydict \<Rightarrow> string \<Rightarrow> pyval" where
  "kwarg kwargs key = (case map_of kwargs key of None \<Rightarrow> VNone | Some v \<Rightarrow> v)"

text \<open>\<open>f(**kwargs)\<close> needs a mapping.\<close>

definition as_mapping :: "pyval \<Rightarrow> error + pydict" where
  "as_mapping v =
     (case v of
        VDict d \<Rightarrow> Inr d
      | _ \<Rightarrow> Inl (Raised TypeError (''argument after ** must be a mapping, not '' @ type_name v)))"

text \<open>
  \<^verbatim>\<open>
  def execute(self, operation: str, *args, **kwargs):          # ExecutableComponentABC
      try:
          getattr(self, operation)(*args, **kwargs)
      except (AttributeError, TypeError):
          raise RuntimeError("Operation '{}' for component '{}' does is invalid".format(
              operation, self.__class__.__name__))
  \<close>
\<close>

definition execute :: "'c platform \<Rightarrow> 'c \<Rightarrow> pyval \<Rightarrow> pydict \<Rightarrow> error + 'c" where
  "execute plat component operation kwargs =
     (case (case operation of
              VStr name \<Rightarrow> call_operation plat component name kwargs
            | _ \<Rightarrow> Inl (Raised TypeError ''attribute name must be string'')) of
        Inl e \<Rightarrow>
          if exc_isinstance (exc_class e) AttributeError \<or> exc_isinstance (exc_class e) TypeError
          then Inl (Raised RuntimeError ''Operation for component does is invalid'')
          else Inl e
      | Inr component' \<Rightarrow> Inr component')"

text \<open>
  \<^verbatim>\<open>
  def execute_component(self, name: str, operation: str, kwargs: dict = None) -> None:
      kwargs = kwargs if kwargs is not None else {}
      if name not in self.components:
          raise RuntimeError("Component '{}' has not been registered.".format(name))
      component = self.components[name]
      if not isinstance(component, ExecutableComponentABC):
          raise RuntimeError("Component '{}' is not executable.".format(name))
      component.execute(operation, **kwargs)
  \<close>
\<close>

definition execute_component ::
  "'c platform \<Rightarrow> 'c driver \<Rightarrow> pyval \<Rightarrow> pyval \<Rightarrow> pyval \<Rightarrow> (error + pyval) \<times> 'c driver" where
  "execute_component plat drv name operation kwargs =
     (case as_name name of
        Inl e \<Rightarrow> (Inl e, drv)
      | Inr key \<Rightarrow>
          (case map_of (components drv) key of
             None \<Rightarrow> (Inl (Raised RuntimeError (''Component '' @ key @ '' has not been registered.'')), drv)
           | Some component \<Rightarrow>
               if \<not> is_executable plat component
               then (Inl (Raised RuntimeError (''Component '' @ key @ '' is not executable.'')), drv)
               else (case as_mapping (if kwargs = VNone then VDict [] else kwargs) of
                       Inl e \<Rightarrow> (Inl e, drv)
                     | Inr kw \<Rightarrow>
                         (case execute plat component operation kw of
                            Inl e \<Rightarrow> (Inl e, drv)
                          | Inr component' \<Rightarrow>
                              (Inr VNone,
                               drv\<lparr>components := AList.update key component' (components drv)\<rparr>)))))"

text \<open>
  \<^verbatim>\<open>
  def create_routine(self, name, interval, entity, executor, operation, kwargs) -> None:
      if entity in _exe_handlers and executor not in self._entity_lookup[entity]():
          raise RuntimeError("Executor component '{}' could not be found.".format(executor))
      self.routines[name] = (entity, executor, operation, kwargs, interval)
  \<close>
  \<open>_exe_handlers\<close> has the single key \<open>"component"\<close>.
\<close>

definition create_routine :: "'c driver \<Rightarrow> pydict \<Rightarrow> (error + pyval) \<times> 'c driver" where
  "create_routine drv data =
     (case bind_kwargs [''name'', ''interval'', ''entity'', ''executor'', ''operation'', ''kwargs'']
             [] data of
        Inl e \<Rightarrow> (Inl e, drv)
      | Inr u \<Rightarrow>
          if kwarg data ''entity'' = VStr ''component'' \<and>
             kwarg data ''executor'' \<notin> set (map (VStr \<circ> fst) (components drv))
          then (Inl (Raised RuntimeError ''Executor component could not be found.''), drv)
          else (case as_name (kwarg data ''name'') of
                  Inl e \<Rightarrow> (Inl e, drv)
                | Inr key \<Rightarrow>
                    (Inr VNone,
                     drv\<lparr>routines := AList.update key
                       (kwarg data ''entity'', kwarg data ''executor'', kwarg data ''operation'',
                        kwarg data ''kwargs'', kwarg data ''interval'') (routines drv)\<rparr>)))"

text \<open>
  \<^verbatim>\<open>
  def create_component(self, name: str, type: str, setup: dict = None) -> None:
      setup = setup if setup is not None else {}
      self.components[name] = supported_components[type](**setup)
  \<close>
\<close>

definition create_component ::
  "'c platform \<Rightarrow> 'c driver \<Rightarrow> pydict \<Rightarrow> (error + pyval) \<times> 'c driver" where
  "create_component plat drv data =
     (case bind_kwargs [''name'', ''type''] [''setup''] data of
        Inl e \<Rightarrow> (Inl e, drv)
      | Inr u \<Rightarrow>
          (case (case kwarg data ''type'' of
                   VStr type \<Rightarrow>
                     (case supported_components plat type of
                        None \<Rightarrow> Inl (Raised KeyError type)
                      | Some constructor \<Rightarrow> Inr constructor)
                 | v \<Rightarrow> Inl (Raised KeyError (type_name v))) of
             Inl e \<Rightarrow> (Inl e, drv)
           | Inr constructor \<Rightarrow>
               (case as_mapping (if kwarg data ''setup'' = VNone then VDict []
                                 else kwarg data ''setup'') of
                  Inl e \<Rightarrow> (Inl e, drv)
                | Inr setup \<Rightarrow>
                    (case constructor setup of
                       Inl e \<Rightarrow> (Inl e, drv)
                     | Inr component \<Rightarrow>
                         (case as_name (kwarg data ''name'') of
                            Inl e \<Rightarrow> (Inl e, drv)
                          | Inr key \<Rightarrow>
                              (Inr VNone,
                               drv\<lparr>components := AList.update key component (components drv)\<rparr>))))))"

text \<open>
  \<^verbatim>\<open>
  def delete_routine(self, name: str) -> None:
      if name in self.routines:
          del self.routines[name]

  def delete_component(self, name: str) -> None:
      if name in self.components:
          del self.components[name]
  \<close>
\<close>

definition delete_routine :: "'c driver \<Rightarrow> pyval \<Rightarrow> (error + pyval) \<times> 'c driver" where
  "delete_routine drv name =
     (case as_name name of
        Inl e \<Rightarrow> (Inl e, drv)
      | Inr key \<Rightarrow> (Inr VNone, drv\<lparr>routines := AList.delete key (routines drv)\<rparr>))"

definition delete_component :: "'c driver \<Rightarrow> pyval \<Rightarrow> (error + pyval) \<times> 'c driver" where
  "delete_component drv name =
     (case as_name name of
        Inl e \<Rightarrow> (Inl e, drv)
      | Inr key \<Rightarrow> (Inr VNone, drv\<lparr>components := AList.delete key (components drv)\<rparr>))"

text \<open>
  \<^verbatim>\<open>
  def get(self, fields: list) -> dict:
      return {field: self._get_handlers[field]() for field in fields}

  def get_routines(self) -> list:    return list(self.routines.keys())
  def get_components(self) -> list:  return list(self.components.keys())
  def get_states(self) -> dict:
      return {name: component.read() for name, component in self.components.items()
              if isinstance(component, ReadableComponentABC)}
  \<close>
\<close>

fun get_states :: "'c platform \<Rightarrow> (string \<times> 'c) list \<Rightarrow> pydict \<Rightarrow> error + pydict" where
  "get_states plat [] states = Inr states"
| "get_states plat ((name, component) # rest) states =
     (if is_readable plat component
      then (case read_component plat component of
              Inl e \<Rightarrow> Inl e
            | Inr state \<Rightarrow> get_states plat rest (AList.update name state states))
      else get_states plat rest states)"

definition get_handlers :: "'c platform \<Rightarrow> 'c driver \<Rightarrow> string \<Rightarrow> error + pyval" where
  "get_handlers plat drv field =
     (if field = ''states''
      then (case get_states plat (components drv) [] of Inl e \<Rightarrow> Inl e | Inr d \<Rightarrow> Inr (VDict d))
      else if field = ''components'' then Inr (VList (map (VStr \<circ> fst) (components drv)))
      else if field = ''routines'' then Inr (VList (map (VStr \<circ> fst) (routines drv)))
      else Inl (Raised KeyError field))"

definition get_field :: "'c platform \<Rightarrow> 'c driver \<Rightarrow> pyval \<Rightarrow> error + (string \<times> pyval)" where
  "get_field plat drv field =
     (case field of
        VStr name \<Rightarrow>
          (case get_handlers plat drv name of Inl e \<Rightarrow> Inl e | Inr val \<Rightarrow> Inr (name, val))
      | VList xs \<Rightarrow> Inl (Raised TypeError ''unhashable type: list'')
      | VDict d \<Rightarrow> Inl (Raised TypeError ''unhashable type: dict'')
      | _ \<Rightarrow> Inl (Raised KeyError (type_name field)))"

fun get_fields :: "'c platform \<Rightarrow> 'c driver \<Rightarrow> pyval list \<Rightarrow> pydict \<Rightarrow> error + pydict" where
  "get_fields plat drv [] result = Inr result"
| "get_fields plat drv (field # rest) result =
     (case get_field plat drv field of
        Inl e \<Rightarrow> Inl e
      | Inr (name, val) \<Rightarrow> get_fields plat drv rest (AList.update name val result))"

definition driver_get :: "'c platform \<Rightarrow> 'c driver \<Rightarrow> pyval \<Rightarrow> error + pyval" where
  "driver_get plat drv field_list =
     (case py_iter field_list of
        Inl e \<Rightarrow> Inl e
      | Inr xs \<Rightarrow> (case get_fields plat drv xs [] of Inl e \<Rightarrow> Inl e | Inr d \<Rightarrow> Inr (VDict d)))"

text \<open>
  The dispatch tables:
  \<^verbatim>\<open>
  _request_handlers = {
      "get": _driver.get,
      "exe": lambda entity, name, operation, kwargs=None: _exe_handlers[entity](name, operation, kwargs),
      "delete": lambda entity, name: _delete_handlers[entity](name),
      "create": lambda entity, data: _create_handlers[entity](**data)
  }
  _create_handlers = {"routine": _driver.create_routine, "component": _driver.create_component}
  _exe_handlers = {"component": _driver.execute_component}
  _delete_handlers = {"component": _driver.delete_component, "routine": _driver.delete_routine}
  \<close>
  A key that a table does not hold raises \<open>KeyError\<close>.
\<close>

definition entity_key :: "pyval \<Rightarrow> string list \<Rightarrow> error + string" where
  "entity_key entity table =
     (case entity of
        VStr name \<Rightarrow> if name \<in> set table then Inr name else Inl (Raised KeyError name)
      | VList xs \<Rightarrow> Inl (Raised TypeError ''unhashable type: list'')
      | VDict d \<Rightarrow> Inl (Raised TypeError ''unhashable type: dict'')
      | v \<Rightarrow> Inl (Raised KeyError (type_name v)))"

definition request_handlers ::
  "'c platform \<Rightarrow> 'c driver \<Rightarrow> string \<Rightarrow> pydict \<Rightarrow> (error + pyval) \<times> 'c driver" where
  "request_handlers plat drv method kwargs =
     (if method = ''get'' then
        (case bind_kwargs [''fields''] [] kwargs of
           Inl e \<Rightarrow> (Inl e, drv)
         | Inr u \<Rightarrow> (driver_get plat drv (kwarg kwargs ''fields''), drv))
      else if method = ''exe'' then
        (case bind_kwargs [''entity'', ''name'', ''operation''] [''kwargs''] kwargs of
           Inl e \<Rightarrow> (Inl e, drv)
         | Inr u \<Rightarrow>
             (case entity_key (kwarg kwargs ''entity'') [''component''] of
                Inl e \<Rightarrow> (Inl e, drv)
              | Inr entity \<Rightarrow>
                  execute_component plat drv (kwarg kwargs ''name'') (kwarg kwargs ''operation'')
                    (kwarg kwargs ''kwargs'')))
      else if method = ''delete'' then
        (case bind_kwargs [''entity'', ''name''] [] kwargs of
           Inl e \<Rightarrow> (Inl e, drv)
         | Inr u \<Rightarrow>
             (case entity_key (kwarg kwargs ''entity'') [''component'', ''routine''] of
                Inl e \<Rightarrow> (Inl e, drv)
              | Inr entity \<Rightarrow>
                  if entity = ''component'' then delete_component drv (kwarg kwargs ''name'')
                  else delete_routine drv (kwarg kwargs ''name'')))
      else if method = ''create'' then
        (case bind_kwargs [''entity'', ''data''] [] kwargs of
           Inl e \<Rightarrow> (Inl e, drv)
         | Inr u \<Rightarrow>
             (case entity_key (kwarg kwargs ''entity'') [''routine'', ''component''] of
                Inl e \<Rightarrow> (Inl e, drv)
              | Inr entity \<Rightarrow>
                  (case as_mapping (kwarg kwargs ''data'') of
                     Inl e \<Rightarrow> (Inl e, drv)
                   | Inr data \<Rightarrow>
                       if entity = ''routine'' then create_routine drv data
                       else create_component plat drv data)))
      else (Inl (Raised KeyError method), drv))"

text \<open>\<open>method, kwargs = entry\<close>: an entry that does not yield exactly two elements
  raises \<open>ValueError\<close>, a value that cannot be iterated \<open>TypeError\<close>.\<close>

definition unpack_entry :: "pyval \<Rightarrow> error + (pyval \<times> pyval)" where
  "unpack_entry entry =
     (case py_iter entry of
        Inl e \<Rightarrow> Inl e
      | Inr [method, kwargs] \<Rightarrow> Inr (method, kwargs)
      | Inr xs \<Rightarrow> Inl (Raised ValueError ''wrong number of values to unpack''))"

text \<open>
  \<^verbatim>\<open>
  def _handle_received_data(received: list) -> dict:
      response = {}
      for method, kwargs in received:
          display("\tHANDLED METHOD '{}'".format(TerminalColors.OKBLUE + method + TerminalColors.ENDC))
          display(_items_to_str(item_prefix="\t\t", **kwargs))
          result = _request_handlers[method](**kwargs)
          if method in retrieval_methods and result is not None:
              response.update(result)
      return response
  \<close>
  Printing changes nothing, but its arguments are computed: the method must be a
  string to be concatenated and \<open>kwargs\<close> a mapping without the key \<open>item_prefix\<close>.
  \<open>retrieval_methods\<close> is \<open>{"get"}\<close>.
\<close>

definition handle_entry ::
  "'c platform \<Rightarrow> 'c driver \<Rightarrow> pyval \<Rightarrow> pydict \<Rightarrow> (error + pydict) \<times> 'c driver" where
  "handle_entry plat drv entry response =
     (case unpack_entry entry of
        Inl e \<Rightarrow> (Inl e, drv)
      | Inr (method, kwargs) \<Rightarrow>
          (case method of
             VStr name \<Rightarrow>
               (case as_mapping kwargs of
                  Inl e \<Rightarrow> (Inl e, drv)
                | Inr kw \<Rightarrow>
                    if ''item_prefix'' \<in> set (map fst kw)
                    then (Inl (Raised TypeError ''got multiple values for keyword argument item_prefix''), drv)
                    else (case request_handlers plat drv name kw of
                            (Inl e, drv') \<Rightarrow> (Inl e, drv')
                          | (Inr result, drv') \<Rightarrow>
                              if name = ''get'' \<and> result \<noteq> VNone
                              then (case as_mapping result of
                                      Inl e \<Rightarrow> (Inl e, drv')
                                    | Inr d \<Rightarrow> (Inr (dict_update response d), drv'))
                              else (Inr response, drv')))
           | _ \<Rightarrow> (Inl (Raised TypeError ''can only concatenate str to str''), drv)))"

fun handle_entries ::
  "'c platform \<Rightarrow> 'c driver \<Rightarrow> pyval list \<Rightarrow> pydict \<Rightarrow> (error + pydict) \<times> 'c driver" where
  "handle_entries plat drv [] response = (Inr response, drv)"
| "handle_entries plat drv (entry # rest) response =
     (case handle_entry plat drv entry response of
        (Inl e, drv') \<Rightarrow> (Inl e, drv')
      | (Inr response', drv') \<Rightarrow> handle_entries plat drv' rest response')"

definition handle_received_data ::
  "'c platform \<Rightarrow> 'c driver \<Rightarrow> pyval \<Rightarrow> (error + pydict) \<times> 'c driver" where
  "handle_received_data plat drv received =
     (case py_iter received of
        Inl e \<Rightarrow> (Inl e, drv)
      | Inr entries \<Rightarrow> handle_entries plat drv entries [])"

text \<open>The name of an exception's class, for the error message.\<close>

fun exc_name :: "exc \<Rightarrow> string" where
  "exc_name ValueError = ''ValueError''"
| "exc_name RuntimeError = ''RuntimeError''"
| "exc_name RuntimeWarning = ''RuntimeWarning''"
| "exc_name KeyError = ''KeyError''"
| "exc_name TypeError = ''TypeError''"
| "exc_name AttributeError = ''AttributeError''"
| "exc_name IndexError = ''IndexError''"
| "exc_name RecursionError = ''RecursionError''"
| "exc_name OSError = ''OSError''"

text \<open>
  \<^verbatim>\<open>
  def _on_receive(received: bytes, client_address: tuple = None) -> bytes:
      error_message = None
      feedback_to_send = Transaction("server", received_time=time.time())
      try:
          display(...)
          received = Transaction.decode("client", received)
          feedback_to_send["response"] = _handle_received_data(received["input"])
      except (RuntimeError, RuntimeWarning, ValueError) as e:
          error_message = "{}: {}".format(e.__class__.__name__, str(e))
          display(...)
      feedback_to_send["error"] = error_message
      feedback_to_send["sent_time"] = time.time()
      encoded = feedback_to_send.encoded()
      display(...)
      return encoded
  \<close>
  The two readings of the clock are parameters.  An exception of another class than the
  three leaves \<open>_on_receive\<close>.
\<close>

definition caught_by_driver :: "error \<Rightarrow> bool" where
  "caught_by_driver e =
     (exc_isinstance (exc_class e) RuntimeError \<or> exc_isinstance (exc_class e) RuntimeWarning \<or>
      exc_isinstance (exc_class e) ValueError)"

definition driver_on_receive ::
  "env \<Rightarrow> 'c platform \<Rightarrow> 'c driver \<Rightarrow> rat \<Rightarrow> rat \<Rightarrow> bytes \<Rightarrow> string \<times> int \<Rightarrow>
     (error + bytes) \<times> 'c driver" where
  "driver_on_receive ev plat drv received_time sent_time received client_address =
     (case transaction_init ''server'' [(''received_time'', VFloat received_time)] of
        Inl e \<Rightarrow> (Inl e, drv)
      | Inr feedback \<Rightarrow>
          (case (case decode_transaction ev ''client'' received of
                   Inl e \<Rightarrow> (Inl e, drv)
                 | Inr request \<Rightarrow>
                     (case handle_received_data plat drv (kwarg (contents request) ''input'') of
                        (Inl e, drv') \<Rightarrow> (Inl e, drv')
                      | (Inr response, drv') \<Rightarrow>
                          (transaction_setitem feedback ''response'' (VDict response), drv'))) of
             (Inl e, drv') \<Rightarrow>
               if caught_by_driver e
               then (case transaction_setitem feedback ''error''
                            (VStr (exc_name (exc_class e) @ '': '' @ exc_message e)) of
                       Inl e' \<Rightarrow> (Inl e', drv')
                     | Inr feedback1 \<Rightarrow>
                         (case transaction_setitem feedback1 ''sent_time'' (VFloat sent_time) of
                            Inl e' \<Rightarrow> (Inl e', drv')
                          | Inr feedback2 \<Rightarrow> (encoded ev feedback2, drv')))
               else (Inl e, drv')
           | (Inr feedback0, drv') \<Rightarrow>
               (case transaction_setitem feedback0 ''error'' VNone of
                  Inl e' \<Rightarrow> (Inl e', drv')
                | Inr feedback1 \<Rightarrow>
                    (case transaction_setitem feedback1 ''sent_time'' (VFloat sent_time) of
                       Inl e' \<Rightarrow> (Inl e', drv')
                     | Inr feedback2 \<Rightarrow> (encoded ev feedback2, drv')))))"

text \<open>A platform without component types, and nothing to call on a component.\<close>

definition bare_platform :: "unit platform" where
  "bare_platform =
     \<lparr>supported_components = (\<lambda>type. None), is_executable = (\<lambda>c. False),
      is_readable = (\<lambda>c. False),
      call_operation = (\<lambda>c operation kwargs. Inl (Raised AttributeError operation)),
      read_component = (\<lambda>c. Inr VNone)\<rparr>"

section \<open>Properties of the path lookup\<close>

lemma split_nonempty: "split delimiter s \<noteq> []"
  by (induction s) (auto split: list.splits)

lemma map_of_in_keys: "(k \<in> fst ` set d) = (map_of d k \<noteq> None)"
  by (induction d) auto

lemma get_nested_util_mappings:
  "route \<noteq> [] \<Longrightarrow> mappings_along route m \<Longrightarrow> get_nested_util route m = Inr (lookup_spec route m)"
proof (induction route m rule: get_nested_util.induct)
  case (1 mapping)
  then show ?case by simp
next
  case (2 key route mapping)
  from "2.prems"(2) obtain d where d: "mapping = VDict d"
    by (cases mapping) auto
  show ?case
  proof (cases "map_of d key")
    case None
    then have "key \<notin> fst ` set d" by (simp add: map_of_in_keys)
    with None d show ?thesis by simp
  next
    case (Some v)
    then have "key \<in> fst ` set d" by (simp add: map_of_in_keys)
    with Some d "2.prems" "2.IH" show ?thesis
      by (cases "route = []") auto
  qed
qed

text \<open>
  Claim C10, as amended.  For every dot-delimited path and every value in which each
  value reached before the last segment is a mapping, \<open>get_nested\<close> does not raise and
  agrees with the specification's lookup: null as soon as a segment is absent, the value
  at the path otherwise.
\<close>

theorem get_nested_on_mappings:
  "mappings_along (split CHR ''.'' route) m \<Longrightarrow>
     get_nested route m = Inr (lookup_spec (split CHR ''.'' route) m)"
  unfolding get_nested_def
  by (rule get_nested_util_mappings [OF split_nonempty])

theorem get_nested_on_mappings_witness:
  "mappings_along (split CHR ''.'' ''a.b'') (VDict [(''a'', VDict [(''c'', VInt 1)])]) \<and>
   get_nested ''a.b'' (VDict [(''a'', VDict [(''c'', VInt 1)])]) = Inr VNone"
  using get_nested_on_mappings [of "''a.b''" "VDict [(''a'', VDict [(''c'', VInt 1)])]"]
  by simp

text \<open>
  Claim C10 as stated fails: when an earlier segment resolves to a value that is no
  mapping, here the integer 5 under \<open>x\<close>, the membership test of the next segment raises
  \<open>TypeError\<close> instead of yielding null.
\<close>

theorem get_nested_raises_on_non_mapping:
  "get_nested ''x.y'' (VDict [(''x'', VInt 5)]) =
     Inl (Raised TypeError ''argument of type int is not iterable'')"
  by (simp add: get_nested_def)

section \<open>Properties of the transaction codec\<close>









lemma keys_equal_iff:
  "(set xs = set ys) = (list_all (\<lambda>x. x \<in> set ys) xs \<and> list_all (\<lambda>y. y \<in> set xs) ys)"
  by (auto simp: list_all_iff)

lemma is_valid_transaction_eval:
  "is_valid_transaction st tr =
     (list_all (\<lambda>x. x \<in> set (map fst tr)) (map fst st) \<and>
      list_all (\<lambda>y. y \<in> set (map fst st)) (map fst tr) \<and>
      list_all (\<lambda>(key, val). is_valid_entry st key val) tr)"
  unfolding is_valid_transaction_def keys_equal_iff [of "map fst st" "map fst tr"] by auto



section \<open>Properties of the gate's send\<close>

lemma send_decode_result:
  assumes "client g = Some c"
      and "msgpack_dumps ev (VDict [(''input'', requests_value (requests g))]) = Inr enc"
      and "client_send ev (target_address c) enc = Inr reply"
  shows "send ev g =
     (case decode_transaction ev ''server'' reply of
        Inr received \<Rightarrow> (Inr received, g\<lparr>requests := []\<rparr>)
      | Inl e \<Rightarrow>
          if exc_isinstance (exc_class e) ValueError
          then (Inr \<lparr>structure_key = ''server'', contents =
                  [(''received_time'', VNone), (''sent_time'', VNone), (''response'', VNone),
                   (''error'', VStr ''ValueError: Unable to send package. Try again'')]\<rparr>,
                g\<lparr>requests := []\<rparr>)
          else (Inl e, g))"
  using assms
  by (simp add: send_def transaction_init_def structures_def client_structure_def
      server_structure_def transaction_setitem_def is_valid_entry_def requests_value_def
      encoded_def is_valid_transaction_eval split: sum.splits)

text \<open>
  Claim C3 fails on the code.  \<open>send\<close> catches \<open>ValueError\<close> only, and the validation
  failure of \<open>decode_transaction\<close> is a \<open>RuntimeError\<close>: when the peer's reply decodes
  to a mapping that does not match the server structure, the exception leaves \<open>send\<close>
  and the request queue is not cleared.
\<close>

theorem send_propagates_schema_mismatch:
  assumes "client g = Some c"
      and "msgpack_dumps ev (VDict [(''input'', requests_value (requests g))]) = Inr enc"
      and "client_send ev (target_address c) enc = Inr reply"
      and "msgpack_loads ev reply = Inr (VDict m)"
      and "\<not> is_valid_transaction server_structure m"
  shows "send ev g =
     (Inl (Raised RuntimeError
        ''Received transaction does not match the structuring format server''), g)"
  using assms(4,5) unfolding send_decode_result [OF assms(1-3)]
  by (simp add: decode_transaction_def structures_def)

theorem send_propagates_schema_mismatch_witness:
  "client \<lparr>children = [], handler = None,
      client = Some \<lparr>cls = TCPClient, target_hostname = ''driver'', target_port = 50000\<rparr>,
      requests = [(''get'', [(''fields'', VTuple [VStr ''states''])])]\<rparr> =
     Some \<lparr>cls = TCPClient, target_hostname = ''driver'', target_port = 50000\<rparr> \<and>
   \<not> is_valid_transaction server_structure [] \<and>
   send (canned_env [1] (VDict []) [128])
     \<lparr>children = [], handler = None,
      client = Some \<lparr>cls = TCPClient, target_hostname = ''driver'', target_port = 50000\<rparr>,
      requests = [(''get'', [(''fields'', VTuple [VStr ''states''])])]\<rparr> =
     (Inl (Raised RuntimeError
        ''Received transaction does not match the structuring format server''),
      \<lparr>children = [], handler = None,
       client = Some \<lparr>cls = TCPClient, target_hostname = ''driver'', target_port = 50000\<rparr>,
       requests = [(''get'', [(''fields'', VTuple [VStr ''states''])])]\<rparr>)"
  using send_propagates_schema_mismatch
    [of "\<lparr>children = [], handler = None,
      client = Some \<lparr>cls = TCPClient, target_hostname = ''driver'', target_port = 50000\<rparr>,
      requests = [(''get'', [(''fields'', VTuple [VStr ''states''])])]\<rparr>"
      "\<lparr>cls = TCPClient, target_hostname = ''driver'', target_port = 50000\<rparr>"
      "canned_env [1] (VDict []) [128]" "[1]" "[128]" "[]"]
  by (simp add: canned_env_def is_valid_transaction_eval server_structure_def)

text \<open>What \<open>send\<close> does contain: a \<open>ValueError\<close> of the msgpack library while the
  reply is unpacked becomes the synthetic server transaction, and the queue is cleared.\<close>

lemma send_synthesizes_on_value_error:
  assumes "client g = Some c"
      and "msgpack_dumps ev (VDict [(''input'', requests_value (requests g))]) = Inr enc"
      and "client_send ev (target_address c) enc = Inr reply"
      and "msgpack_loads ev reply = Inl (Raised ValueError msg)"
  shows "send ev g =
     (Inr \<lparr>structure_key = ''server'', contents =
        [(''received_time'', VNone), (''sent_time'', VNone), (''response'', VNone),
         (''error'', VStr ''ValueError: Unable to send package. Try again'')]\<rparr>,
      g\<lparr>requests := []\<rparr>)"
  using assms(4) unfolding send_decode_result [OF assms(1-3)]
  by (simp add: decode_transaction_def)


section \<open>Properties of the resolution algorithm\<close>

text \<open>
  The required parents along an edge are at most the firing gate itself: the filter
  keeps a parent only if it equals \<open>gate_key\<close>.  The firing gate is a key of
  \<open>current\<close>, so the subset test always succeeds, nothing is ever parked, and a run
  that starts with empty carry-overs keeps them empty.
\<close>

lemma required_parents_subset: "set (required_parents net gate_key child c) \<subseteq> {gate_key}"
  by (auto simp: required_parents_def)

lemma barrier_always_passes:
  "gate_key \<in> set (map fst current) \<Longrightarrow>
   list_all (\<lambda>parent. parent \<in> set carry_over_parents \<union> set (map fst current))
     (required_parents net gate_key child c)"
  using required_parents_subset [of net gate_key child c] by (auto simp: list_all_iff)

lemma schedule_child_no_carry:
  "gate_key \<in> set (map fst current) \<Longrightarrow>
   schedule_child net current gate_key child c (ar, ng, []) =
     (case update_item ng child ar of Inl e \<Rightarrow> Inl e | Inr ng' \<Rightarrow> Inr (ar, ng', []))"
  using barrier_always_passes [of gate_key current "[]" net child c]
  by (simp add: schedule_child_def)

lemma route_child_no_carry:
  "gate_key \<in> set (map fst current) \<Longrightarrow>
   route_child net current gate_key child (ar, ng, []) =
     (case edge_passes net gate_key child ar of
        Inl e \<Rightarrow> Inl e
      | Inr False \<Rightarrow> Inr (ar, ng, [])
      | Inr True \<Rightarrow> (case update_item ng child ar of Inl e \<Rightarrow> Inl e | Inr ng' \<Rightarrow> Inr (ar, ng', [])))"
  by (auto simp: route_child_def edge_passes_def schedule_child_no_carry
      split: option.splits sum.splits bool.splits)

lemma update_item_other:
  "update_item ng child ar = Inr ng' \<Longrightarrow> x \<noteq> child \<Longrightarrow> map_of ng' x = map_of ng x"
  by (auto simp: update_item_def update_conv' split: option.splits sum.splits)

lemma update_item_fresh:
  "map_of ng child = None \<Longrightarrow> update_item ng child ar = Inr (AList.update child ar ng)"
  by (simp add: update_item_def)

lemma route_children_no_carry:
  assumes "gate_key \<in> set (map fst current)"
      and "route_children net current gate_key cs (ar, ng, []) = Inr st'"
  shows "\<exists>ng'. st' = (ar, ng', []) \<and>
           (\<forall>x. x \<notin> set cs \<longrightarrow> map_of ng' x = map_of ng x) \<and>
           (\<forall>x. x \<in> set cs \<longrightarrow> distinct cs \<longrightarrow> map_of ng x = None \<longrightarrow>
              (\<exists>b. edge_passes net gate_key x ar = Inr b \<and>
                    map_of ng' x = (if b then Some ar else None)))"
  using assms(2)
proof (induction cs arbitrary: ng)
  case Nil
  then show ?case by auto
next
  case (Cons c rest)
  from Cons.prems obtain st1 where
    rc: "route_child net current gate_key c (ar, ng, []) = Inr st1" and
    rest: "route_children net current gate_key rest st1 = Inr st'"
    by (auto split: sum.splits)
  from rc obtain b1 ng1 where
    b1: "edge_passes net gate_key c ar = Inr b1" and st1: "st1 = (ar, ng1, [])" and
    ng1: "if b1 then update_item ng c ar = Inr ng1 else ng1 = ng"
    unfolding route_child_no_carry [OF assms(1)]
    by (auto split: sum.splits bool.splits)
  from Cons.IH [OF rest [unfolded st1]] obtain ng' where
    st': "st' = (ar, ng', [])" and
    keep: "\<And>x. x \<notin> set rest \<Longrightarrow> map_of ng' x = map_of ng1 x" and
    new: "\<And>x. x \<in> set rest \<Longrightarrow> distinct rest \<Longrightarrow> map_of ng1 x = None \<Longrightarrow>
              \<exists>b. edge_passes net gate_key x ar = Inr b \<and>
                  map_of ng' x = (if b then Some ar else None)"
    by blast
  have other: "map_of ng1 x = map_of ng x" if "x \<noteq> c" for x
    using ng1 that by (auto simp: update_item_other split: if_splits)
  have "map_of ng' x = map_of ng x" if "x \<notin> set (c # rest)" for x
    using that keep [of x] other [of x] by simp
  moreover have "\<exists>b. edge_passes net gate_key x ar = Inr b \<and>
                  map_of ng' x = (if b then Some ar else None)"
    if x: "x \<in> set (c # rest)" and d: "distinct (c # rest)" and none: "map_of ng x = None" for x
  proof (cases "x = c")
    case True
    with d have "c \<notin> set rest" by simp
    then have "map_of ng' c = map_of ng1 c" by (rule keep)
    moreover have "map_of ng1 c = (if b1 then Some ar else None)"
      using ng1 none True by (auto simp: update_item_fresh update_conv' split: if_splits)
    ultimately show ?thesis using b1 True by simp
  next
    case False
    with x d have "x \<in> set rest" "distinct rest" by auto
    moreover have "map_of ng1 x = None" using other [OF False] none by simp
    ultimately show ?thesis by (rule new)
  qed
  ultimately show ?case using st' by blast
qed

lemma schedule_step:
  "map_of (gates net) G = Some g \<Longrightarrow>
   schedule net current ((G, rG) # rest) (ng, co, completed) =
     (if children g = []
      then schedule net current rest (ng, co, AList.update G (or_empty rG) completed)
      else (case route_children net current G (children g) (or_empty rG, ng, co) of
              Inl e \<Rightarrow> Inl e
            | Inr st1 \<Rightarrow> schedule net current rest (fst (snd st1), snd (snd st1), completed)))"
  by (simp add: or_empty_def split: sum.splits prod.splits)

lemma schedule_no_carry:
  assumes "schedule net current items (ng, [], completed) = Inr (ng', co', completed')"
      and "set (map fst items) \<subseteq> set (map fst current)"
      and "distinct (map fst items)"
      and "\<forall>(G, rG) \<in> set items. G \<noteq> A \<longrightarrow> x \<notin> set (children_of net G)"
      and "distinct (children_of net A)"
  shows "co' = [] \<and>
         (case map_of items A of
            None \<Rightarrow> map_of ng' x = map_of ng x
          | Some r \<Rightarrow> x \<in> set (children_of net A) \<longrightarrow> map_of ng x = None \<longrightarrow>
              (\<exists>b. edge_passes net A x (or_empty r) = Inr b \<and>
                    map_of ng' x = (if b then Some (or_empty r) else None)))"
  using assms(1-4)
proof (induction items arbitrary: ng completed)
  case Nil
  then show ?case by simp
next
  case (Cons item rest)
  obtain G rG where item: "item = (G, rG)" by (cases item)
  from Cons.prems(1) item obtain g where g: "map_of (gates net) G = Some g"
    by (cases "map_of (gates net) G") auto
  note unfolded = Cons.prems(1) [unfolded item schedule_step [OF g]]
  from Cons.prems(2) item have Gin: "G \<in> set (map fst current)"
    and rest_sub: "set (map fst rest) \<subseteq> set (map fst current)" by auto
  from Cons.prems(3) item have Gnotin: "G \<notin> fst ` set rest" and rest_dist: "distinct (map fst rest)"
    by auto
  from Cons.prems(4) have rest_others: "\<forall>(G, rG) \<in> set rest. G \<noteq> A \<longrightarrow> x \<notin> set (children_of net G)"
    by simp
  have G_other: "x \<notin> set (children g)" if "G \<noteq> A"
    using Cons.prems(4) item g that by (simp add: children_of_def)
  have "\<exists>ng1 completed1.
      schedule net current rest (ng1, [], completed1) = Inr (ng', co', completed') \<and>
      (x \<notin> set (children g) \<longrightarrow> map_of ng1 x = map_of ng x) \<and>
      (x \<in> set (children g) \<longrightarrow> distinct (children g) \<longrightarrow> map_of ng x = None \<longrightarrow>
         (\<exists>b. edge_passes net G x (or_empty rG) = Inr b \<and>
              map_of ng1 x = (if b then Some (or_empty rG) else None)))"
  proof (cases "children g = []")
    case True
    with unfolded have "schedule net current rest (ng, [], AList.update G (or_empty rG) completed) =
      Inr (ng', co', completed')" by simp
    with True show ?thesis by auto
  next
    case False
    with unfolded obtain st1 where
      rc: "route_children net current G (children g) (or_empty rG, ng, []) = Inr st1" and
      s: "schedule net current rest (fst (snd st1), snd (snd st1), completed) = Inr (ng', co', completed')"
      by (cases "route_children net current G (children g) (or_empty rG, ng, [])") auto
    from route_children_no_carry [OF Gin rc] obtain ng1 where
      st1: "st1 = (or_empty rG, ng1, [])" and
      k: "\<forall>x. x \<notin> set (children g) \<longrightarrow> map_of ng1 x = map_of ng x" and
      n: "\<forall>x. x \<in> set (children g) \<longrightarrow> distinct (children g) \<longrightarrow> map_of ng x = None \<longrightarrow>
              (\<exists>b. edge_passes net G x (or_empty rG) = Inr b \<and>
                    map_of ng1 x = (if b then Some (or_empty rG) else None))"
      by blast
    from s st1 have "schedule net current rest (ng1, [], completed) = Inr (ng', co', completed')"
      by simp
    with k n show ?thesis by blast
  qed
  then obtain ng1 completed1 where
    step: "schedule net current rest (ng1, [], completed1) = Inr (ng', co', completed')" and
    keep': "x \<notin> set (children g) \<longrightarrow> map_of ng1 x = map_of ng x" and
    new': "x \<in> set (children g) \<longrightarrow> distinct (children g) \<longrightarrow> map_of ng x = None \<longrightarrow>
            (\<exists>b. edge_passes net G x (or_empty rG) = Inr b \<and>
                map_of ng1 x = (if b then Some (or_empty rG) else None))"
    by (elim exE conjE)
  from keep' have keep: "x \<notin> set (children g) \<Longrightarrow> map_of ng1 x = map_of ng x" by simp
  from new' have new: "x \<in> set (children g) \<Longrightarrow> distinct (children g) \<Longrightarrow> map_of ng x = None \<Longrightarrow>
            \<exists>b. edge_passes net G x (or_empty rG) = Inr b \<and>
                map_of ng1 x = (if b then Some (or_empty rG) else None)" by simp
  note IH = Cons.IH [OF step rest_sub rest_dist rest_others]
  show ?case
  proof (cases "G = A")
    case True
    with Gnotin have none: "map_of rest A = None" by (simp add: map_of_eq_None_iff)
    from IH have co: "co' = []" by simp
    from IH none have same: "map_of ng' x = map_of ng1 x" by simp
    have cA: "children_of net A = children g" using True g by (simp add: children_of_def)
    have "\<exists>b. edge_passes net A x (or_empty rG) = Inr b \<and>
                map_of ng' x = (if b then Some (or_empty rG) else None)"
      if xin: "x \<in> set (children_of net A)" and none: "map_of ng x = None"
    proof -
      from xin cA have "x \<in> set (children g)" by simp
      moreover from assms(5) cA have "distinct (children g)" by simp
      ultimately obtain b where "edge_passes net G x (or_empty rG) = Inr b"
        "map_of ng1 x = (if b then Some (or_empty rG) else None)"
        using new none by blast
      with True same show ?thesis by metis
    qed
    with co item True show ?thesis by simp
  next
    case False
    then have same: "map_of ng1 x = map_of ng x" using keep G_other by simp
    from False item have mapA: "map_of (item # rest) A = map_of rest A" by simp
    show ?thesis
    proof (cases "map_of rest A")
      case None
      with IH have "co' = []" "map_of ng' x = map_of ng1 x" by simp_all
      with None same mapA show ?thesis by simp
    next
      case (Some r)
      with IH have "co' = []" and
        imp: "x \<in> set (children_of net A) \<longrightarrow> map_of ng1 x = None \<longrightarrow>
              (\<exists>b. edge_passes net A x (or_empty r) = Inr b \<and>
                    map_of ng' x = (if b then Some (or_empty r) else None))" by simp_all
      with Some same mapA show ?thesis by simp
    qed
  qed
qed


lemma add_edge_result:
  assumes add: "add_edge net A B (Some k) v evaluator (Some C) = (Inr (), net')"
      and k: "k \<noteq> []" and v: "v \<noteq> VNone" and t: "truthy_evaluator evaluator" and c: "C \<noteq> []"
      and ev: "resolve_evaluator evaluator = Inr e"
      and gA: "map_of (gates net) A = Some gA"
  shows "A \<noteq> B \<and> A \<noteq> C \<and>
         conditional_edges net' =
           AList.update (A, C) (k, negated e, v)
             (AList.update (A, B) (k, e, v) (conditional_edges net)) \<and>
         map_of (gates net') A = Some (gA\<lparr>children := set_add B (set_add C (children gA))\<rparr>) \<and>
         (\<forall>G. G \<noteq> A \<longrightarrow> map_of (gates net') G = map_of (gates net) G)"
proof -
  define net1 where "net1 = net\<lparr>conditional_edges :=
     AList.update (A, B) (k, e, v) (conditional_edges net)\<rparr>"
  define net2 where "net2 = net1\<lparr>conditional_edges :=
     AList.update (A, C) (k, negated e, v) (conditional_edges net1)\<rparr>"
  have inner: "add_edge net1 A C (Some k) v (Custom (negated e)) None = graph_add_edge net2 A C"
    using k v by (simp add: add_edge.simps [of net1 A C "Some k" v "Custom (negated e)" None]
        net2_def)
  have outer: "add_edge net A B (Some k) v evaluator (Some C) =
     (case graph_add_edge net2 A C of
        (Inl e, net3) \<Rightarrow> (Inl e, net3)
      | (Inr u, net3) \<Rightarrow> graph_add_edge net3 A B)"
    using k v t c ev inner
    by (simp add: add_edge.simps [of net A B "Some k" v evaluator "Some C"] net1_def)
  from add [unfolded outer] obtain net3 where
    n3: "graph_add_edge net2 A C = (Inr (), net3)" and n4: "graph_add_edge net3 A B = (Inr (), net')"
    by (auto split: prod.splits sum.splits)
  have g2: "map_of (gates net2) A = Some gA" using gA by (simp add: net2_def net1_def)
  from n3 g2 have AC: "A \<noteq> C" and net3: "net3 = net2\<lparr>gates :=
      AList.update A (gA\<lparr>children := set_add C (children gA)\<rparr>) (gates net2)\<rparr>"
    by (auto simp: graph_add_edge_def split: if_splits)
  have g3: "map_of (gates net3) A = Some (gA\<lparr>children := set_add C (children gA)\<rparr>)"
    by (simp add: net3 update_conv')
  from n4 g3 have AB: "A \<noteq> B" and net': "net' = net3\<lparr>gates :=
      AList.update A (gA\<lparr>children := set_add B (set_add C (children gA))\<rparr>) (gates net3)\<rparr>"
    by (auto simp: graph_add_edge_def split: if_splits)
  show ?thesis
    using AB AC by (simp add: net' net3 net2_def net1_def update_conv')
qed


lemma distinct_set_add: "distinct xs \<Longrightarrow> distinct (set_add x xs)"
  by (simp add: set_add_def)

lemma set_set_add: "set (set_add x xs) = insert x (set xs)"
  by (auto simp: set_add_def)

text \<open>
  Claim C2, as amended.  Let \<open>add_edge\<close> succeed for an edge from \<open>A\<close> to \<open>B\<close> with a
  condition of a non-empty path \<open>k\<close>, an evaluator \<open>e\<close> and a value \<open>v\<close> that is
  not null, and a non-empty fallback key \<open>C\<close> other than \<open>B\<close>.  In a generation in
  which \<open>A\<close> has produced \<open>r\<close>, no gate is a successor of two firing gates, and the
  scheduling completes without an exception, the lookup and the evaluator have returned,
  and exactly one of \<open>B\<close> and \<open>C\<close> is scheduled with \<open>r\<close> as its input: \<open>B\<close>
  when \<open>e(v, lookup(k, r))\<close> is true, \<open>C\<close> when it is false.
\<close>

theorem conditional_routing_exclusive:
  assumes add: "add_edge net A B (Some k) v evaluator (Some C) = (Inr (), net')"
      and k: "k \<noteq> []" and v: "v \<noteq> VNone" and t: "truthy_evaluator evaluator"
      and c: "C \<noteq> []" and bc: "B \<noteq> C"
      and ev: "resolve_evaluator evaluator = Inr e"
      and gA: "map_of (gates net) A = Some gA" and dA: "distinct (children gA)"
      and dcur: "distinct (map fst current)" and r: "map_of current A = Some r"
      and nss: "no_shared_successor net' current"
      and sched: "schedule net' current current ([], [], completed) =
                    Inr (next_gates, carry_overs', completed')"
  shows "\<exists>found passes.
           get_nested k (or_empty r) = Inr found \<and> e v found = Inr passes \<and>
           map_of next_gates B = (if passes then Some (or_empty r) else None) \<and>
           map_of next_gates C = (if passes then None else Some (or_empty r))"
proof -
  from add_edge_result [OF add k v t c ev gA] have
    ce: "conditional_edges net' =
           AList.update (A, C) (k, negated e, v)
             (AList.update (A, B) (k, e, v) (conditional_edges net))" and
    g': "map_of (gates net') A = Some (gA\<lparr>children := set_add B (set_add C (children gA))\<rparr>)"
    by simp_all
  have cA: "children_of net' A = set_add B (set_add C (children gA))"
    using g' by (simp add: children_of_def)
  have dist: "distinct (children_of net' A)"
    unfolding cA by (intro distinct_set_add dA)
  have Bin: "B \<in> set (children_of net' A)" and Cin: "C \<in> set (children_of net' A)"
    unfolding cA by (simp_all add: set_set_add)
  have passB: "edge_passes net' A B x =
      (case get_nested k x of Inl e' \<Rightarrow> Inl e' | Inr found \<Rightarrow> e v found)" for x
    using bc by (simp add: edge_passes_def ce update_conv')
  have passC: "edge_passes net' A C x =
      (case get_nested k x of Inl e' \<Rightarrow> Inl e' | Inr found \<Rightarrow> negated e v found)" for x
    by (simp add: edge_passes_def ce update_conv')
  from r have Ain: "(A, r) \<in> set current" by (rule map_of_SomeD)
  have others: "set (children_of net' G) \<inter> set (children_of net' A) = {}"
    if "(G, rG) \<in> set current" "G \<noteq> A" for G rG
    using nss that Ain unfolding no_shared_successor_def list_all_iff by fastforce
  have oB: "\<forall>(G, rG) \<in> set current. G \<noteq> A \<longrightarrow> B \<notin> set (children_of net' G)"
    and oC: "\<forall>(G, rG) \<in> set current. G \<noteq> A \<longrightarrow> C \<notin> set (children_of net' G)"
    using others Bin Cin by blast+
  from schedule_no_carry [OF sched subset_refl dcur oB dist] r Bin
  obtain b where b: "edge_passes net' A B (or_empty r) = Inr b"
    and mB: "map_of next_gates B = (if b then Some (or_empty r) else None)"
    by auto
  from schedule_no_carry [OF sched subset_refl dcur oC dist] r Cin
  obtain b' where b': "edge_passes net' A C (or_empty r) = Inr b'"
    and mC: "map_of next_gates C = (if b' then Some (or_empty r) else None)"
    by auto
  from b obtain found where f: "get_nested k (or_empty r) = Inr found" and efound: "e v found = Inr b"
    unfolding passB by (auto split: sum.splits)
  from b' f efound have "b' = (\<not> b)"
    unfolding passC by (simp add: negated_def)
  with mB mC f efound show ?thesis by auto
qed

lemmas routing_eval =
  graph_add_edge_def set_add_def standard_evaluators_def negated_def route_child_def
  schedule_child_def required_parents_def in_neighbors_def update_item_def get_nested_def
  abc_network_def children_of_def or_empty_def no_shared_successor_def

theorem conditional_routing_exclusive_witness:
  "fst (add_edge abc_network ''A'' ''B'' (Some ''x'') (VInt 5) (Named ''eq'') (Some ''C'')) = Inr () \<and>
   schedule (snd (add_edge abc_network ''A'' ''B'' (Some ''x'') (VInt 5) (Named ''eq'') (Some ''C'')))
     [(''A'', VDict [(''x'', VInt 7)])] [(''A'', VDict [(''x'', VInt 7)])] ([], [], []) =
     Inr ([(''C'', VDict [(''x'', VInt 7)])], [], []) \<and>
   (\<exists>found passes.
      get_nested ''x'' (or_empty (VDict [(''x'', VInt 7)])) = Inr found \<and>
      py_eq (VInt 5) found = passes \<and>
      map_of [(''C'', VDict [(''x'', VInt 7)])] ''B'' =
        (if passes then Some (or_empty (VDict [(''x'', VInt 7)])) else None) \<and>
      map_of [(''C'', VDict [(''x'', VInt 7)])] ''C'' =
        (if passes then None else Some (or_empty (VDict [(''x'', VInt 7)]))))"
  using conditional_routing_exclusive
    [of abc_network "''A''" "''B''" "''x''" "VInt 5" "Named ''eq''" "''C''"
       "snd (add_edge abc_network ''A'' ''B'' (Some ''x'') (VInt 5) (Named ''eq'') (Some ''C''))"
       "\<lambda>a b. Inr (py_eq a b)"
       "\<lparr>children = [], handler = None, client = None, requests = []\<rparr>"
       "[(''A'', VDict [(''x'', VInt 7)])]" "VDict [(''x'', VInt 7)]" "[]"
       "[(''C'', VDict [(''x'', VInt 7)])]" "[]" "[]"]
  by (simp add: routing_eval prod_eq_iff
      add_edge.simps [of _ _ _ _ _ _ "Some ''C''"] add_edge.simps [of _ _ _ _ _ _ None])

text \<open>
  Claim C2 as stated fails: an activation result can make the evaluation of the
  condition raise, and then neither \<open>B\<close> nor \<open>C\<close> receives it.  With the standard
  evaluator \<open>lt\<close> and a result that lacks the key, the lookup yields null and
  \<open>5 < None\<close> raises; with \<open>eq\<close> and the path \<open>x.y\<close>, a result whose \<open>x\<close> is an
  integer makes the lookup raise.
\<close>

theorem conditional_routing_raises:
  "fst (add_edge abc_network ''A'' ''B'' (Some ''x'') (VInt 5) (Named ''lt'') (Some ''C'')) = Inr () \<and>
   schedule (snd (add_edge abc_network ''A'' ''B'' (Some ''x'') (VInt 5) (Named ''lt'') (Some ''C'')))
     [(''A'', VDict [])] [(''A'', VDict [])] ([], [], []) =
     Inl (Raised TypeError ''comparison not supported between instances of int and NoneType'') \<and>
   fst (add_edge abc_network ''A'' ''B'' (Some ''x.y'') (VInt 5) (Named ''eq'') (Some ''C'')) = Inr () \<and>
   schedule (snd (add_edge abc_network ''A'' ''B'' (Some ''x.y'') (VInt 5) (Named ''eq'') (Some ''C'')))
     [(''A'', VDict [(''x'', VInt 5)])] [(''A'', VDict [(''x'', VInt 5)])] ([], [], []) =
     Inl (Raised TypeError ''argument of type int is not iterable'')"
  by (simp add: routing_eval num_cmp_def unorderable_def
      add_edge.simps [of _ _ _ _ _ _ "Some ''C''"] add_edge.simps [of _ _ _ _ _ _ None])

text \<open>
  Claim C1 fails on the code.  In the network where \<open>C\<close> has the two unconditional
  parents \<open>A\<close> and \<open>B\<close>, a run started at \<open>A\<close> activates \<open>C\<close> in the next
  generation and completes it with the payload of \<open>A\<close> alone; \<open>B\<close> never fires.
\<close>

theorem join_child_fires_on_one_parent:
  "run ev join_network ''A'' (VDict [(''a'', VInt 1)]) =
     Some (Inr [(''C'', VDict [(''a'', VInt 1)])], join_network\<lparr>generation_count := 2\<rparr>)"
  by (simp add: run_def resolve_def get_next_generation_def route_child_def schedule_child_def
      required_parents_def in_neighbors_def update_item_def activate_def join_network_def
      resolve_loop.simps)

text \<open>
  Claim C6.  While the busy flag is set, a received request is answered with the four
  bytes \<open>BUSY\<close> and the network is left as it was.
\<close>

theorem busy_guard:
  "is_busy net \<Longrightarrow>
     on_receive ev net received client_address = Some (Inr BUSY, net) \<and>
     BUSY = map of_char ''BUSY'' \<and> length BUSY = 4"
  by (simp add: on_receive_def BUSY_def)

theorem busy_guard_witness:
  "is_busy (join_network\<lparr>is_busy := True\<rparr>) \<and>
   on_receive (canned_env [] VNone []) (join_network\<lparr>is_busy := True\<rparr>) [123, 125] (''peer'', 4000) =
     Some (Inr BUSY, join_network\<lparr>is_busy := True\<rparr>) \<and>
   BUSY = map of_char ''BUSY'' \<and> length BUSY = 4"
  using busy_guard [of "join_network\<lparr>is_busy := True\<rparr>" "canned_env [] VNone []" "[123, 125]"
      "(''peer'', 4000)"]
  by simp

section \<open>Properties of the client table\<close>

text \<open>
  Claim C8 fails on the code.  \<open>define_client\<close> checks the address only: with a label
  that is already in the table and an address that is not, it does not raise but replaces
  the client stored under the label.
\<close>

theorem define_client_overwrites_label:
  assumes "map_of (clients net) label = Some old"
      and "client_exists net type hostname port = Inr False"
      and "client_types type = Inr k"
  shows "define_client net label hostname port type =
     (Inr (), net\<lparr>clients :=
        AList.update label \<lparr>cls = k, target_hostname = hostname, target_port = port\<rparr>
          (clients net)\<rparr>)"
  using assms by (simp add: define_client_def)

theorem define_client_overwrites_label_witness:
  "map_of (clients bound_network) ''a'' =
     Some \<lparr>cls = TCPClient, target_hostname = ''h1'', target_port = 1\<rparr> \<and>
   client_exists bound_network ''tcp'' ''h2'' 2 = Inr False \<and>
   client_types ''tcp'' = Inr TCPClient \<and>
   define_client bound_network ''a'' ''h2'' 2 ''tcp'' =
     (Inr (), bound_network\<lparr>clients :=
        [(''a'', \<lparr>cls = TCPClient, target_hostname = ''h2'', target_port = 2\<rparr>)]\<rparr>)"
  using define_client_overwrites_label [of bound_network "''a''"
      "\<lparr>cls = TCPClient, target_hostname = ''h1'', target_port = 1\<rparr>" "''tcp''" "''h2''" 2 TCPClient]
  by (simp add: bound_network_def client_exists_def client_types_def target_address_def)

text \<open>
  Claim C9 fails on the code.  \<open>delete_client\<close> pops the client object and then unpacks
  it as a triple, which raises \<open>TypeError\<close>: the call does not complete, the entry is gone
  from the table, and no gate is unbound.
\<close>

theorem delete_client_raises:
  assumes "map_of (clients net) label = Some c"
  shows "delete_client net label =
     (Inl (Raised TypeError ''cannot unpack non-iterable TCPClient object''),
      net\<lparr>clients := AList.delete label (clients net)\<rparr>)"
  using assms by (simp add: delete_client_def unpack_client_def)

theorem delete_client_raises_witness:
  "map_of (clients bound_network) ''a'' =
     Some \<lparr>cls = TCPClient, target_hostname = ''h1'', target_port = 1\<rparr> \<and>
   delete_client bound_network ''a'' =
     (Inl (Raised TypeError ''cannot unpack non-iterable TCPClient object''),
      bound_network\<lparr>clients := []\<rparr>) \<and>
   map_of (gates (snd (delete_client bound_network ''a''))) ''G'' =
     Some \<lparr>children = [], handler = None,
           client = Some \<lparr>cls = TCPClient, target_hostname = ''h1'', target_port = 1\<rparr>,
           requests = []\<rparr>"
  using delete_client_raises [of bound_network "''a''"
      "\<lparr>cls = TCPClient, target_hostname = ''h1'', target_port = 1\<rparr>"]
  by (simp add: bound_network_def)



section \<open>Properties of the path enumeration\<close>

lemma lasso_inner:
  "get_paths_util n lasso_graph ''A'' paths pre (Some ''S'') =
     Inl (Raised RecursionError ''maximum recursion depth exceeded'') \<and>
   get_paths_util n lasso_graph ''B'' paths pre (Some ''S'') =
     Inl (Raised RecursionError ''maximum recursion depth exceeded'')"
  by (induction n arbitrary: paths pre) (simp_all add: lasso_graph_def out_neighbors_def)

lemma lasso_start:
  "get_paths_util n lasso_graph ''S'' [] [] None =
     Inl (Raised RecursionError ''maximum recursion depth exceeded'')"
proof (cases n)
  case 0
  then show ?thesis by simp
next
  case (Suc m)
  have "paths_of_children m lasso_graph [''A''] [] [''S''] ''S'' =
     Inl (Raised RecursionError ''maximum recursion depth exceeded'')"
    by (simp add: lasso_inner)
  with Suc show ?thesis by (simp add: lasso_graph_def out_neighbors_def)
qed

lemma lasso_has_cycle: "has_cycle lasso_graph"
proof -
  have "(''A'', ''B'') \<in> edges lasso_graph" "(''B'', ''A'') \<in> edges lasso_graph"
    by (simp_all add: edges_def succs_def lasso_graph_def)
  then have "(''A'', ''A'') \<in> (edges lasso_graph)\<^sup>+" by (rule trancl_into_trancl2 [OF _ r_into_trancl])
  then show ?thesis unfolding has_cycle_def by blast
qed


lemma lasso_overflows:
  "get_all_complete_paths limit lasso_graph =
       Inl (Raised RecursionError ''maximum recursion depth exceeded'') \<and>
   is_acyclic limit lasso_graph =
       Inl (Raised RecursionError ''maximum recursion depth exceeded'')"
proof -
  have "get_all_complete_paths limit lasso_graph =
       Inl (Raised RecursionError ''maximum recursion depth exceeded'')"
    using lasso_start [of limit]
    by (simp add: get_all_complete_paths_def get_complete_paths_def lasso_graph_def)
  then show ?thesis by (simp add: is_acyclic_def)
qed

text \<open>
  Claim C7 as stated fails.  The traversal stops a branch only at a key without
  successors or at the start key of the enumeration, so on a graph whose cycle does not
  pass through the start key it never stops: whatever the number of nested calls allowed,
  the enumeration ends in \<open>RecursionError\<close>, and \<open>is_acyclic\<close> does not return
  \<open>False\<close> although the graph contains a cycle.
\<close>

theorem lasso_enumeration_overflows:
  "has_cycle lasso_graph \<and>
   (\<forall>limit. get_all_complete_paths limit lasso_graph =
       Inl (Raised RecursionError ''maximum recursion depth exceeded'') \<and>
     is_acyclic limit lasso_graph =
       Inl (Raised RecursionError ''maximum recursion depth exceeded''))"
  using lasso_has_cycle lasso_overflows by blast

lemma is_walk_snoc:
  "is_walk g pre \<Longrightarrow> pre \<noteq> [] \<Longrightarrow> c \<in> set (succs g (last pre)) \<Longrightarrow> is_walk g (pre @ [c])"
  by (induction g pre rule: is_walk.induct) auto

lemma out_neighbors_succs: "out_neighbors g key = Inr out \<Longrightarrow> succs g key = out"
  by (auto simp: out_neighbors_def succs_def split: option.splits)

lemma enumeration_sound:
  "get_paths_util n g key paths pre start = Inr (ret, paths') \<Longrightarrow>
   pre = [] \<or> is_walk g (pre @ [key]) \<Longrightarrow>
     (ret = None \<or> ret = Some (pre @ [key])) \<and>
     (\<exists>new. paths' = paths @ new \<and>
        (\<forall>p \<in> set new. is_walk g p \<and> (\<exists>ws. ws \<noteq> [] \<and> p = pre @ key # ws)))"
  "paths_of_children n g cs paths pre s = Inr paths'' \<Longrightarrow>
   is_walk g pre \<Longrightarrow> pre \<noteq> [] \<Longrightarrow> set cs \<subseteq> set (succs g (last pre)) \<Longrightarrow>
     (\<exists>new. paths'' = paths @ new \<and>
        (\<forall>p \<in> set new. is_walk g p \<and> (\<exists>ws. ws \<noteq> [] \<and> p = pre @ ws)))"
proof (induction n g key paths pre start and n g cs paths pre s
    arbitrary: ret paths' and paths'' rule: get_paths_util_paths_of_children.induct)
  case (1 g key paths prepended start)
  then show ?case by simp
next
  case (2 limit g key paths prepended start)
  from "2.prems"(1) obtain out where out: "out_neighbors g key = Inr out"
    by (auto split: sum.splits)
  have walk: "is_walk g (prepended @ [key])"
    using "2.prems"(2) by auto
  show ?case
  proof (cases "out = [] \<or> Some key = start")
    case True
    with "2.prems"(1) out show ?thesis by auto
  next
    case False
    with "2.prems"(1) out have
      ch: "paths_of_children limit g out paths (prepended @ [key])
             (case start of None \<Rightarrow> key | Some s \<Rightarrow> s) = Inr paths'" and ret: "ret = None"
      by (auto split: sum.splits)
    have "set out \<subseteq> set (succs g (last (prepended @ [key])))"
      using out_neighbors_succs [OF out] by simp
    from "2.IH" [OF out False ch walk _ this] obtain new where
      "paths' = paths @ new"
      "\<forall>p \<in> set new. is_walk g p \<and> (\<exists>ws. ws \<noteq> [] \<and> p = (prepended @ [key]) @ ws)"
      by auto
    with ret show ?thesis by auto
  qed
next
  case (3 limit g paths prepended start)
  then show ?case by simp
next
  case (4 limit g child rest paths prepended start)
  from "4.prems"(1) obtain new_path p1 where
    first: "get_paths_util limit g child paths prepended (Some start) = Inr (new_path, p1)" and
    others: "paths_of_children limit g rest
       (case new_path of None \<Rightarrow> p1 | Some path \<Rightarrow> if path \<noteq> [] then p1 @ [path] else p1)
       prepended start = Inr paths''"
    by (auto split: sum.splits prod.splits)
  have walk: "is_walk g (prepended @ [child])"
    using "4.prems" by (intro is_walk_snoc) auto
  from "4.IH"(1) [OF first] walk obtain new1 where
    np: "new_path = None \<or> new_path = Some (prepended @ [child])" and
    p1: "p1 = paths @ new1" and
    n1: "\<forall>p \<in> set new1. is_walk g p \<and> (\<exists>ws. ws \<noteq> [] \<and> p = prepended @ child # ws)"
    by blast
  from "4.prems" have sub: "set rest \<subseteq> set (succs g (last prepended))" by simp
  from "4.IH"(2) [OF first refl others "4.prems"(2,3) sub] obtain new2 where
    p2: "paths'' = (case new_path of None \<Rightarrow> p1
                    | Some path \<Rightarrow> if path \<noteq> [] then p1 @ [path] else p1) @ new2" and
    n2: "\<forall>p \<in> set new2. is_walk g p \<and> (\<exists>ws. ws \<noteq> [] \<and> p = prepended @ ws)"
    by blast
  from n1 have n1': "\<forall>p \<in> set new1. is_walk g p \<and> (\<exists>ws. ws \<noteq> [] \<and> p = prepended @ ws)"
    by blast
  show ?case
  proof (cases new_path)
    case None
    with p1 p2 have "paths'' = paths @ (new1 @ new2)" by simp
    moreover from n1' n2 have
      "\<forall>p \<in> set (new1 @ new2). is_walk g p \<and> (\<exists>ws. ws \<noteq> [] \<and> p = prepended @ ws)"
      by auto
    ultimately show ?thesis by blast
  next
    case (Some path)
    with np have path: "path = prepended @ [child]" by simp
    with Some p1 p2 have "paths'' = paths @ (new1 @ [prepended @ [child]] @ new2)" by simp
    moreover from n1' n2 walk have
      "\<forall>p \<in> set (new1 @ [prepended @ [child]] @ new2).
         is_walk g p \<and> (\<exists>ws. ws \<noteq> [] \<and> p = prepended @ ws)"
      by auto
    ultimately show ?thesis by blast
  qed
qed


lemma walk_trancl:
  "is_walk g (x # ws) \<Longrightarrow> ws \<noteq> [] \<Longrightarrow> (x, last ws) \<in> (edges g)\<^sup>+"
proof (induction ws arbitrary: x)
  case Nil
  then show ?case by simp
next
  case (Cons w ws)
  then have e: "(x, w) \<in> edges g" by (simp add: edges_def)
  show ?case
  proof (cases "ws = []")
    case True
    with e show ?thesis by auto
  next
    case False
    with Cons have "(w, last ws) \<in> (edges g)\<^sup>+" by simp
    with e False show ?thesis by (simp add: trancl_into_trancl2)
  qed
qed

lemma complete_paths_sound:
  assumes "get_complete_paths n g key srt = Inr paths" and "p \<in> set paths"
  shows "\<exists>ws. ws \<noteq> [] \<and> p = key # ws \<and> is_walk g p"
proof -
  from assms(1) obtain ret ps where
    u: "get_paths_util n g key [] [] None = Inr (ret, ps)" and
    paths: "paths = (if srt then sort_key length ps else ps)"
    by (auto simp: get_complete_paths_def split: sum.splits)
  from assms(2) paths have "p \<in> set ps" by (auto split: if_splits)
  with enumeration_sound(1) [OF u] show ?thesis by auto
qed

lemma all_paths_sound:
  "all_paths_from n g keys acc = Inr paths \<Longrightarrow>
   \<forall>p \<in> set acc. \<exists>k ws. ws \<noteq> [] \<and> p = k # ws \<and> is_walk g p \<Longrightarrow>
   \<forall>p \<in> set paths. \<exists>k ws. ws \<noteq> [] \<and> p = k # ws \<and> is_walk g p"
proof (induction keys arbitrary: acc)
  case Nil
  then show ?case by simp
next
  case (Cons key keys)
  from Cons.prems(1) obtain found where
    f: "get_complete_paths n g key False = Inr found" and
    r: "all_paths_from n g keys (acc @ found) = Inr paths"
    by (auto split: sum.splits)
  have "\<exists>k ws. ws \<noteq> [] \<and> p = k # ws \<and> is_walk g p" if "p \<in> set (acc @ found)" for p
  proof (cases "p \<in> set acc")
    case True
    with Cons.prems(2) show ?thesis by blast
  next
    case False
    with that have "p \<in> set found" by simp
    from complete_paths_sound [OF f this] show ?thesis by blast
  qed
  then have "\<forall>p \<in> set (acc @ found). \<exists>k ws. ws \<noteq> [] \<and> p = k # ws \<and> is_walk g p"
    by blast
  from Cons.IH [OF r this] show ?case .
qed

lemma no_closed_path_iff:
  "no_closed_path ps = Inr b \<Longrightarrow> (\<not> b) = (\<exists>p \<in> set ps. p \<noteq> [] \<and> hd p = last p)"
  by (induction ps rule: no_closed_path.induct) (auto split: if_splits)

lemma is_acyclic_sound:
  assumes "is_acyclic n g = Inr False"
  shows "has_cycle g \<and>
         (\<exists>paths p. get_all_complete_paths n g = Inr paths \<and> p \<in> set paths \<and> p \<noteq> [] \<and>
            hd p = last p)"
proof -
  from assms obtain paths where
    ps: "get_all_complete_paths n g = Inr paths" and nc: "no_closed_path paths = Inr False"
    by (auto simp: is_acyclic_def split: sum.splits)
  from no_closed_path_iff [OF nc] obtain p where
    p: "p \<in> set paths" "p \<noteq> []" "hd p = last p" by auto
  from all_paths_sound [OF ps [unfolded get_all_complete_paths_def]] p(1)
  obtain k ws where ws: "ws \<noteq> []" "p = k # ws" "is_walk g p" by auto
  with walk_trancl [of g k ws] p(3) have "(k, k) \<in> (edges g)\<^sup>+" by simp
  then have "has_cycle g" unfolding has_cycle_def by blast
  with ps p show ?thesis by blast
qed

lemma stops_iff: "out_neighbors g c = Inr out \<Longrightarrow> stops g K c = (out = [] \<or> Some c = Some K)"
  by (auto simp: stops_def dest: out_neighbors_succs)

lemma enumeration_complete:
  "get_paths_util n g c paths pre start = Inr (ret, paths') \<Longrightarrow> start = Some K \<Longrightarrow>
     set paths \<subseteq> set paths' \<and>
     (branch g K c [] \<longrightarrow> ret = Some (pre @ [c])) \<and>
     (\<forall>ws. ws \<noteq> [] \<longrightarrow> branch g K c ws \<longrightarrow> pre @ c # ws \<in> set paths')"
  "paths_of_children n g cs paths pre s = Inr paths'' \<Longrightarrow>
     set paths \<subseteq> set paths'' \<and>
     (\<forall>c \<in> set cs. \<forall>ws. branch g s c ws \<longrightarrow> pre @ c # ws \<in> set paths'')"
proof (induction n g c paths pre start and n g cs paths pre s
    arbitrary: ret paths' K and paths'' rule: get_paths_util_paths_of_children.induct)
  case (1 g key paths prepended start)
  then show ?case by simp
next
  case (2 limit g key paths prepended start)
  from "2.prems"(1) obtain out where out: "out_neighbors g key = Inr out"
    by (auto split: sum.splits)
  note st = stops_iff [OF out, of K]
  show ?case
  proof (cases "out = [] \<or> Some key = start")
    case True
    with "2.prems" out st have "ret = Some (prepended @ [key])" "paths' = paths" "stops g K key"
      by auto
    then show ?thesis by (auto simp: neq_Nil_conv)
  next
    case False
    with "2.prems" out have
      ch: "paths_of_children limit g out paths (prepended @ [key]) K = Inr paths'"
      by (auto split: sum.splits)
    from False "2.prems"(2) st have ns: "\<not> stops g K key" by simp
    from "2.IH" [OF out False] ch "2.prems"(2) have
      sub: "set paths \<subseteq> set paths'" and
      all: "\<forall>c \<in> set out. \<forall>ws. branch g K c ws \<longrightarrow> (prepended @ [key]) @ c # ws \<in> set paths'"
      by auto
    have "prepended @ key # ws \<in> set paths'" if "ws \<noteq> []" "branch g K key ws" for ws
    proof -
      from that obtain w ws' where ws: "ws = w # ws'" by (cases ws) auto
      with that have "w \<in> set out" "branch g K w ws'"
        using out_neighbors_succs [OF out] by auto
      with all ws show ?thesis by auto
    qed
    with sub ns show ?thesis by simp
  qed
next
  case (3 limit g paths prepended start)
  then show ?case by simp
next
  case (4 limit g child rest paths prepended start)
  from "4.prems"(1) obtain new_path p1 where
    first: "get_paths_util limit g child paths prepended (Some start) = Inr (new_path, p1)" and
    others: "paths_of_children limit g rest
       (case new_path of None \<Rightarrow> p1 | Some path \<Rightarrow> if path \<noteq> [] then p1 @ [path] else p1)
       prepended start = Inr paths''"
    by (auto split: sum.splits prod.splits)
  let ?p2 = "case new_path of None \<Rightarrow> p1 | Some path \<Rightarrow> if path \<noteq> [] then p1 @ [path] else p1"
  from "4.IH"(1) [OF first refl] have
    s1: "set paths \<subseteq> set p1" and
    e1: "branch g start child [] \<longrightarrow> new_path = Some (prepended @ [child])" and
    a1: "\<forall>ws. ws \<noteq> [] \<longrightarrow> branch g start child ws \<longrightarrow> prepended @ child # ws \<in> set p1"
    by auto
  from "4.IH"(2) [OF first refl others] have
    s2: "set ?p2 \<subseteq> set paths''" and
    a2: "\<forall>c \<in> set rest. \<forall>ws. branch g start c ws \<longrightarrow> prepended @ c # ws \<in> set paths''"
    by auto
  have p12: "set p1 \<subseteq> set ?p2" by (auto split: option.splits)
  have "prepended @ child # ws \<in> set paths''" if "branch g start child ws" for ws
  proof (cases "ws = []")
    case True
    with that e1 have "new_path = Some (prepended @ [child])" by simp
    then have "prepended @ [child] \<in> set ?p2" by simp
    with s2 True show ?thesis by auto
  next
    case False
    with that a1 have "prepended @ child # ws \<in> set p1" by simp
    with p12 s2 show ?thesis by blast
  qed
  with a2 s1 p12 s2 show ?case by auto
qed

lemma cycle_branch:
  "(a, K) \<in> (edges g)\<^sup>+ \<Longrightarrow>
   \<exists>w ws. w \<in> set (succs g a) \<and> branch g K w ws \<and> last (w # ws) = K"
proof (induction rule: converse_trancl_induct)
  case (base a)
  then have "K \<in> set (succs g a)" by (simp add: edges_def)
  moreover have "branch g K K []" by (simp add: stops_def)
  ultimately show ?case by force
next
  case (step a b)
  from step.hyps(1) have ab: "b \<in> set (succs g a)" by (simp add: edges_def)
  from step.IH obtain w ws where
    w: "w \<in> set (succs g b)" "branch g K w ws" "last (w # ws) = K" by blast
  show ?case
  proof (cases "b = K")
    case True
    have "branch g K K []" by (simp add: stops_def)
    with ab True show ?thesis by force
  next
    case False
    with w(1) have "\<not> stops g K b" by (auto simp: stops_def)
    with w have "branch g K b (w # ws)" "last (b # w # ws) = K" by simp_all
    with ab show ?thesis by blast
  qed
qed

lemma complete_paths_closed:
  assumes cyc: "(K, K) \<in> (edges g)\<^sup>+"
      and paths: "get_complete_paths n g K False = Inr paths"
  shows "\<exists>p \<in> set paths. p \<noteq> [] \<and> hd p = last p"
proof -
  from cycle_branch [OF cyc] obtain w ws where
    w: "w \<in> set (succs g K)" "branch g K w ws" "last (w # ws) = K" by blast
  from paths obtain ret where u: "get_paths_util n g K [] [] None = Inr (ret, paths)"
    by (auto simp: get_complete_paths_def split: sum.splits)
  then obtain m where n: "n = Suc m" by (cases n) auto
  from u n obtain out where out: "out_neighbors g K = Inr out"
    by (auto split: sum.splits)
  with w(1) have ne: "out \<noteq> []" and win: "w \<in> set out"
    using out_neighbors_succs [OF out] by auto
  with u n out have "paths_of_children m g out [] [K] K = Inr paths"
    by (auto split: sum.splits)
  from enumeration_complete(2) [OF this] win w(2) have "[K] @ w # ws \<in> set paths" by blast
  moreover have "hd ([K] @ w # ws) = last ([K] @ w # ws)" using w(3) by simp
  ultimately show ?thesis by blast
qed

lemma all_paths_contains:
  "all_paths_from n g keys acc = Inr paths \<Longrightarrow>
   set acc \<subseteq> set paths \<and>
   (\<forall>k \<in> set keys. \<exists>found. get_complete_paths n g k False = Inr found \<and>
        set found \<subseteq> set paths)"
proof (induction keys arbitrary: acc)
  case Nil
  then show ?case by simp
next
  case (Cons key keys)
  from Cons.prems(1) obtain found where
    f: "get_complete_paths n g key False = Inr found" and
    r: "all_paths_from n g keys (acc @ found) = Inr paths"
    by (auto split: sum.splits)
  from Cons.IH [OF r] f show ?case by auto
qed

lemma is_acyclic_complete:
  assumes "has_cycle g" and "is_acyclic n g = Inr b"
  shows "b = False"
proof -
  from assms(1) obtain K where cyc: "(K, K) \<in> (edges g)\<^sup>+"
    unfolding has_cycle_def by blast
  then obtain w where "(K, w) \<in> edges g" by (meson tranclD)
  then have "succs g K \<noteq> []" by (auto simp: edges_def)
  then have Kin: "K \<in> set (map fst g)"
    by (auto simp: succs_def map_of_in_keys split: option.splits)
  from assms(2) obtain paths where
    ps: "all_paths_from n g (map fst g) [] = Inr paths" and nc: "no_closed_path paths = Inr b"
    by (auto simp: is_acyclic_def get_all_complete_paths_def split: sum.splits)
  from all_paths_contains [OF ps] Kin obtain found where
    f: "get_complete_paths n g K False = Inr found" "set found \<subseteq> set paths" by blast
  from complete_paths_closed [OF cyc f(1)] f(2) have
    "\<exists>p \<in> set paths. p \<noteq> [] \<and> hd p = last p" by blast
  with no_closed_path_iff [OF nc] show ?thesis by simp
qed


lemma finite_edges: "finite (edges g)"
proof -
  have "edges g \<subseteq> set (map fst g) \<times> (\<Union>node \<in> set (map snd g). set node)"
  proof
    fix e assume "e \<in> edges g"
    then obtain a b where e: "e = (a, b)" and b: "b \<in> set (succs g a)"
      by (auto simp: edges_def)
    then obtain node where node: "map_of g a = Some node" "b \<in> set node"
      by (cases "map_of g a") (auto simp: succs_def)
    then have "(a, node) \<in> set g" by (auto dest: map_of_SomeD)
    then have "a \<in> set (map fst g)" "node \<in> set (map snd g)" by force+
    with node(2) e show "e \<in> set (map fst g) \<times> (\<Union>node \<in> set (map snd g). set node)"
      by blast
  qed
  then show ?thesis by (rule finite_subset) simp
qed

lemma uniform_bound:
  "\<forall>x \<in> set xs. \<exists>N. \<forall>n\<ge>N. P x n \<Longrightarrow> \<exists>M. \<forall>x \<in> set xs. \<forall>n\<ge>M. P x (n::nat)"
proof (induction xs)
  case Nil
  then show ?case by simp
next
  case (Cons x xs)
  then obtain M where M: "\<forall>x \<in> set xs. \<forall>n\<ge>M. P x n" by auto
  from Cons.prems obtain N where N: "\<forall>n\<ge>N. P x n" by auto
  have "\<forall>y \<in> set (x # xs). \<forall>n\<ge>max M N. P y n"
    using M N by auto
  then show ?case by blast
qed

lemma children_succeed:
  "\<forall>c \<in> set cs. \<forall>paths. \<exists>ret paths'. get_paths_util n g c paths pre (Some K) = Inr (ret, paths') \<Longrightarrow>
   \<exists>paths'. paths_of_children n g cs paths pre K = Inr paths'"
proof (induction cs arbitrary: paths)
  case Nil
  then show ?case by simp
next
  case (Cons c cs)
  from Cons.prems obtain ret p1 where
    "get_paths_util n g c paths pre (Some K) = Inr (ret, p1)" by fastforce
  moreover from Cons.prems have
    "\<forall>c \<in> set cs. \<forall>paths. \<exists>ret paths'. get_paths_util n g c paths pre (Some K) = Inr (ret, paths')"
    by simp
  from Cons.IH [OF this] have "\<exists>paths'. paths_of_children n g cs
     (case ret of None \<Rightarrow> p1 | Some path \<Rightarrow> if path \<noteq> [] then p1 @ [path] else p1) pre K =
     Inr paths'" .
  ultimately show ?case by simp
qed

lemma no_dangling_child:
  assumes "no_dangling g" and "map_of g c = Some node" and "child \<in> set node"
  shows "child \<in> set (map fst g)"
proof -
  from assms(2) have "(c, node) \<in> set g" by (rule map_of_SomeD)
  with assms(1) have "\<forall>child \<in> set node. child \<in> set (map fst g)"
    unfolding no_dangling_def list_all_iff by blast
  with assms(3) show ?thesis by blast
qed

lemma util_terminates:
  assumes nd: "no_dangling g" and ac: "\<not> has_cycle g"
  shows "c \<in> set (map fst g) \<Longrightarrow>
    \<exists>N. \<forall>n\<ge>N. \<forall>paths pre start. \<exists>ret paths'.
       get_paths_util n g c paths pre start = Inr (ret, paths')"
proof -
  from ac have "acyclic (edges g)" by (simp add: acyclic_def has_cycle_def)
  with finite_edges have wf: "wf ((edges g)\<inverse>)" by (rule finite_acyclic_wf_converse)
  show "c \<in> set (map fst g) \<Longrightarrow>
    \<exists>N. \<forall>n\<ge>N. \<forall>paths pre start. \<exists>ret paths'.
       get_paths_util n g c paths pre start = Inr (ret, paths')"
    using wf
  proof (induction c rule: wf_induct_rule)
    case (less c)
    from less.prems obtain node where node: "map_of g c = Some node"
      by (auto simp: map_of_in_keys)
    then have out: "out_neighbors g c = Inr node" by (simp add: out_neighbors_def)
    have "\<forall>child \<in> set node. \<exists>N. \<forall>n\<ge>N. \<forall>paths pre start. \<exists>ret paths'.
       get_paths_util n g child paths pre start = Inr (ret, paths')"
    proof
      fix child assume ch: "child \<in> set node"
      with node have "(child, c) \<in> (edges g)\<inverse>" by (simp add: edges_def succs_def)
      moreover from ch have "child \<in> set (map fst g)" by (rule no_dangling_child [OF nd node])
      ultimately show "\<exists>N. \<forall>n\<ge>N. \<forall>paths pre start. \<exists>ret paths'.
         get_paths_util n g child paths pre start = Inr (ret, paths')"
        by (rule less.IH)
    qed
    from uniform_bound [OF this] obtain M where
      M: "\<forall>child \<in> set node. \<forall>n\<ge>M. \<forall>paths pre start. \<exists>ret paths'.
         get_paths_util n g child paths pre start = Inr (ret, paths')" by blast
    have "\<exists>ret paths'. get_paths_util n g c paths pre start = Inr (ret, paths')"
      if "n \<ge> Suc M" for n paths pre start
    proof -
      from that obtain m where n: "n = Suc m" and m: "m \<ge> M" by (cases n) auto
      show ?thesis
      proof (cases "node = [] \<or> Some c = start")
        case True
        with n out show ?thesis by auto
      next
        case False
        from M m have "\<forall>child \<in> set node. \<forall>paths. \<exists>ret paths'.
          get_paths_util m g child paths (pre @ [c])
            (Some (case start of None \<Rightarrow> c | Some s \<Rightarrow> s)) = Inr (ret, paths')" by blast
        from children_succeed [OF this] obtain paths' where
          "paths_of_children m g node paths (pre @ [c])
             (case start of None \<Rightarrow> c | Some s \<Rightarrow> s) = Inr paths'" by blast
        with n out False show ?thesis by auto
      qed
    qed
    then show ?case by blast
  qed
qed

lemma all_paths_succeed:
  "\<forall>k \<in> set keys. \<exists>found. get_complete_paths n g k False = Inr found \<Longrightarrow>
   \<exists>paths. all_paths_from n g keys acc = Inr paths"
proof (induction keys arbitrary: acc)
  case Nil
  then show ?case by simp
next
  case (Cons k keys)
  from Cons.prems obtain found where f: "get_complete_paths n g k False = Inr found" by auto
  from Cons.prems have "\<forall>k \<in> set keys. \<exists>found. get_complete_paths n g k False = Inr found"
    by simp
  from Cons.IH [OF this, of "acc @ found"] f show ?case by simp
qed

lemma no_closed_path_total:
  "\<forall>p \<in> set ps. p \<noteq> [] \<Longrightarrow> \<exists>b. no_closed_path ps = Inr b"
  by (induction ps rule: no_closed_path.induct) auto

lemma acyclic_terminates:
  assumes nd: "no_dangling g" and ac: "\<not> has_cycle g"
  shows "\<exists>N. \<forall>limit\<ge>N. (\<exists>paths. get_all_complete_paths limit g = Inr paths) \<and>
           is_acyclic limit g = Inr True"
proof -
  have "\<forall>k \<in> set (map fst g). \<exists>N. \<forall>n\<ge>N. \<exists>found. get_complete_paths n g k False = Inr found"
  proof
    fix k assume "k \<in> set (map fst g)"
    from util_terminates [OF nd ac this] obtain N where
      N: "\<forall>n\<ge>N. \<forall>paths pre start. \<exists>ret paths'.
            get_paths_util n g k paths pre start = Inr (ret, paths')" by blast
    have "\<exists>found. get_complete_paths n g k False = Inr found" if "n \<ge> N" for n
    proof -
      from N that obtain ret paths' where "get_paths_util n g k [] [] None = Inr (ret, paths')"
        by blast
      then show ?thesis by (simp add: get_complete_paths_def)
    qed
    then show "\<exists>N. \<forall>n\<ge>N. \<exists>found. get_complete_paths n g k False = Inr found" by blast
  qed
  from uniform_bound [OF this] obtain M where
    M: "\<forall>k \<in> set (map fst g). \<forall>n\<ge>M. \<exists>found. get_complete_paths n g k False = Inr found"
    by blast
  have "(\<exists>paths. get_all_complete_paths limit g = Inr paths) \<and> is_acyclic limit g = Inr True"
    if "limit \<ge> M" for limit
  proof -
    from M that have "\<forall>k \<in> set (map fst g). \<exists>found. get_complete_paths limit g k False = Inr found"
      by blast
    from all_paths_succeed [OF this] obtain paths where
      ps: "all_paths_from limit g (map fst g) [] = Inr paths" by blast
    from all_paths_sound [OF ps] have "\<forall>p \<in> set paths. p \<noteq> []" by auto
    from no_closed_path_total [OF this] obtain b where b: "no_closed_path paths = Inr b" by blast
    with ps have acy: "is_acyclic limit g = Inr b"
      by (simp add: is_acyclic_def get_all_complete_paths_def)
    have "b"
    proof (rule ccontr)
      assume "\<not> b"
      with acy have "is_acyclic limit g = Inr False" by simp
      from is_acyclic_sound [OF this] ac show False by simp
    qed
    with acy ps show ?thesis by (simp add: get_all_complete_paths_def)
  qed
  then show ?thesis by blast
qed

text \<open>
  Claim C7, as amended.  Whenever \<open>is_acyclic\<close> returns, it returns \<open>False\<close> exactly
  when the graph contains a directed cycle, and then an enumerated path has the same
  first and last key; and on a graph without a cycle and without dangling edges the
  enumeration returns and \<open>is_acyclic\<close> is \<open>True\<close> as soon as enough nested calls are
  allowed.
\<close>

theorem is_acyclic_detects_cycles:
  "(\<forall>limit b. is_acyclic limit g = Inr b \<longrightarrow>
      (b = False) = has_cycle g \<and>
      (b = False \<longrightarrow>
         (\<exists>paths p. get_all_complete_paths limit g = Inr paths \<and> p \<in> set paths \<and> p \<noteq> [] \<and>
            hd p = last p))) \<and>
   (no_dangling g \<and> \<not> has_cycle g \<longrightarrow>
      (\<exists>N. \<forall>limit\<ge>N. (\<exists>paths. get_all_complete_paths limit g = Inr paths) \<and>
           is_acyclic limit g = Inr True))"
proof (intro conjI allI impI)
  fix limit b
  assume r: "is_acyclic limit g = Inr b"
  show "(b = False) = has_cycle g"
  proof
    assume "b = False"
    with r is_acyclic_sound [of limit g] show "has_cycle g" by simp
  next
    assume "has_cycle g"
    then show "b = False" using r by (rule is_acyclic_complete)
  qed
  assume "b = False"
  with r is_acyclic_sound [of limit g]
  show "\<exists>paths p. get_all_complete_paths limit g = Inr paths \<and> p \<in> set paths \<and> p \<noteq> [] \<and>
            hd p = last p" by simp
next
  assume "no_dangling g \<and> \<not> has_cycle g"
  then show "\<exists>N. \<forall>limit\<ge>N. (\<exists>paths. get_all_complete_paths limit g = Inr paths) \<and>
           is_acyclic limit g = Inr True"
    using acyclic_terminates by blast
qed

lemmas graph_eval =
  is_acyclic_def get_all_complete_paths_def get_complete_paths_def out_neighbors_def
  no_dangling_def

theorem is_acyclic_detects_cycles_witness:
  "is_acyclic 3 [(''A'', [''B'']), (''B'', [''A''])] = Inr False \<and>
   has_cycle [(''A'', [''B'']), (''B'', [''A''])] \<and>
   is_acyclic 3 [(''A'', [''B'']), (''B'', [])] = Inr True \<and>
   no_dangling [(''A'', [''B'']), (''B'', [])] \<and>
   \<not> has_cycle [(''A'', [''B'']), (''B'', [])] \<and>
   (\<exists>N. \<forall>limit\<ge>N. is_acyclic limit [(''A'', [''B'']), (''B'', [])] = Inr True)"
proof -
  have c: "is_acyclic 3 [(''A'', [''B'']), (''B'', [''A''])] = Inr False"
    by (simp add: graph_eval eval_nat_numeral)
  have d: "is_acyclic 3 [(''A'', [''B'']), (''B'', [])] = Inr True"
    by (simp add: graph_eval eval_nat_numeral)
  have n: "no_dangling [(''A'', [''B'']), (''B'', [])]"
    by (simp add: graph_eval)
  from c is_acyclic_detects_cycles [of "[(''A'', [''B'']), (''B'', [''A''])]"]
  have hc: "has_cycle [(''A'', [''B'']), (''B'', [''A''])]" by blast
  from d is_acyclic_detects_cycles [of "[(''A'', [''B'']), (''B'', [])]"]
  have nc: "\<not> has_cycle [(''A'', [''B'']), (''B'', [])]" by blast
  from n nc is_acyclic_detects_cycles [of "[(''A'', [''B'']), (''B'', [])]"]
  have "\<exists>N. \<forall>limit\<ge>N. is_acyclic limit [(''A'', [''B'']), (''B'', [])] = Inr True" by blast
  with c d n hc nc show ?thesis by blast
qed


section \<open>Properties of the driver's dispatch\<close>

lemma decode_client_request:
  "msgpack_loads ev received = Inr (VDict [(''input'', VList entries)]) \<Longrightarrow>
   decode_transaction ev ''client'' received =
     Inr \<lparr>structure_key = ''client'', contents = [(''input'', VList entries)]\<rparr>"
  by (simp add: decode_transaction_def structures_def client_structure_def
      is_valid_transaction_def is_valid_entry_def transaction_init_def transaction_setitem_def)

lemma server_feedback:
  "transaction_init ''server'' [(''received_time'', VFloat t)] =
     Inr \<lparr>structure_key = ''server'', contents =
       [(''received_time'', VFloat t), (''sent_time'', VNone), (''response'', VNone),
        (''error'', VNone)]\<rparr>"
  by (simp add: structures_def server_structure_def transaction_init_def
      transaction_setitem_def is_valid_entry_def)

text \<open>
  Claim C4 fails on the code.  A method that the table \<open>_request_handlers\<close> does not
  hold raises \<open>KeyError\<close>, which is none of the three classes that \<open>_on_receive\<close>
  catches: the exception leaves \<open>_on_receive\<close> and no server transaction is returned.
\<close>

theorem unknown_method_escapes:
  assumes "msgpack_loads ev received =
             Inr (VDict [(''input'', VList (VList [VStr method, VDict kwargs] # rest))])"
      and "method \<notin> {''get'', ''exe'', ''delete'', ''create''}"
      and "''item_prefix'' \<notin> set (map fst kwargs)"
  shows "driver_on_receive ev plat drv received_time sent_time received client_address =
           (Inl (Raised KeyError method), drv)"
proof -
  have "handle_entry plat drv (VList [VStr method, VDict kwargs]) [] =
          (Inl (Raised KeyError method), drv)"
    using assms(2,3)
    by (simp add: handle_entry_def unpack_entry_def py_iter_def as_mapping_def
        request_handlers_def)
  then have "handle_received_data plat drv (VList (VList [VStr method, VDict kwargs] # rest)) =
          (Inl (Raised KeyError method), drv)"
    by (simp add: handle_received_data_def py_iter_def)
  then show ?thesis
    by (simp add: driver_on_receive_def server_feedback decode_client_request [OF assms(1)]
        kwarg_def caught_by_driver_def)
qed

theorem unknown_method_escapes_witness:
  "msgpack_loads (canned_env [] (VDict [(''input'', VList [VList [VStr ''foo'', VDict []]])]) [])
     [1] = Inr (VDict [(''input'', VList (VList [VStr ''foo'', VDict []] # []))]) \<and>
   ''foo'' \<notin> {''get'', ''exe'', ''delete'', ''create''} \<and>
   driver_on_receive (canned_env [] (VDict [(''input'', VList [VList [VStr ''foo'', VDict []]])]) [])
     bare_platform \<lparr>components = [], routines = []\<rparr> 1 2 [1] (''controller'', 4000) =
     (Inl (Raised KeyError ''foo''), \<lparr>components = [], routines = []\<rparr>)"
  using unknown_method_escapes
    [of "canned_env [] (VDict [(''input'', VList [VList [VStr ''foo'', VDict []]])]) []" "[1]"
      "''foo''" "[]" "[]" bare_platform "\<lparr>components = [], routines = []\<rparr>" 1 2
      "(''controller'', 4000)"]
  by (simp add: canned_env_def)

text \<open>The same holds for an entity that the second-level table does not hold.\<close>

lemma unknown_entity_escapes:
  assumes "msgpack_loads ev received =
             Inr (VDict [(''input'', VList (VList [VStr ''delete'',
                VDict [(''entity'', VStr entity), (''name'', name)]] # rest))])"
      and "entity \<notin> {''component'', ''routine''}"
  shows "driver_on_receive ev plat drv received_time sent_time received client_address =
           (Inl (Raised KeyError entity), drv)"
proof -
  have "handle_entry plat drv
          (VList [VStr ''delete'', VDict [(''entity'', VStr entity), (''name'', name)]]) [] =
          (Inl (Raised KeyError entity), drv)"
    using assms(2)
    by (simp add: handle_entry_def unpack_entry_def py_iter_def as_mapping_def
        request_handlers_def bind_kwargs_def kwarg_def entity_key_def)
  then have "handle_received_data plat drv (VList (VList [VStr ''delete'',
                VDict [(''entity'', VStr entity), (''name'', name)]] # rest)) =
          (Inl (Raised KeyError entity), drv)"
    by (simp add: handle_received_data_def py_iter_def)
  then show ?thesis
    by (simp add: driver_on_receive_def server_feedback decode_client_request [OF assms(1)]
        kwarg_def caught_by_driver_def)
qed

text \<open>An operation that the component does not have is contained, because
  \<open>execute\<close> turns the \<open>AttributeError\<close> into a \<open>RuntimeError\<close>: the reply is the
  encoded server transaction with the error description.\<close>

lemma unknown_operation_reported:
  assumes "msgpack_loads ev received =
             Inr (VDict [(''input'', VList (VList [VStr ''exe'',
                VDict [(''entity'', VStr ''component''), (''name'', VStr name),
                       (''operation'', VStr operation)]] # rest))])"
      and "map_of (components drv) name = Some component"
      and "is_executable plat component"
      and "call_operation plat component operation [] = Inl (Raised AttributeError msg)"
  shows "driver_on_receive ev plat drv received_time sent_time received client_address =
           (msgpack_dumps ev (VDict
              [(''received_time'', VFloat received_time), (''sent_time'', VFloat sent_time),
               (''response'', VNone),
               (''error'', VStr ''RuntimeError: Operation for component does is invalid'')]),
            drv)"
proof -
  have "handle_entry plat drv
          (VList [VStr ''exe'', VDict [(''entity'', VStr ''component''), (''name'', VStr name),
                       (''operation'', VStr operation)]]) [] =
          (Inl (Raised RuntimeError ''Operation for component does is invalid''), drv)"
    using assms(2-4)
    by (simp add: handle_entry_def unpack_entry_def py_iter_def as_mapping_def
        request_handlers_def bind_kwargs_def kwarg_def entity_key_def execute_component_def
        as_name_def execute_def)
  then have "handle_received_data plat drv (VList (VList [VStr ''exe'',
                VDict [(''entity'', VStr ''component''), (''name'', VStr name),
                       (''operation'', VStr operation)]] # rest)) =
          (Inl (Raised RuntimeError ''Operation for component does is invalid''), drv)"
    by (simp add: handle_received_data_def py_iter_def)
  then show ?thesis
    by (simp add: driver_on_receive_def server_feedback decode_client_request [OF assms(1)]
        kwarg_def caught_by_driver_def transaction_setitem_def structures_def
        server_structure_def is_valid_entry_def encoded_def is_valid_transaction_eval)
qed

end
